theory Spec2Isabelle
  imports Complex_Main
begin

section \<open>The packet codec: \<^verbatim>\<open>src/coder/DNSPacket.ts\<close>\<close>

text \<open>
  The classes \<^verbatim>\<open>Question\<close>, \<^verbatim>\<open>ResourceRecord\<close>, \<^verbatim>\<open>DNSLabelCoder\<close> and
  \<^verbatim>\<open>NonCompressionLabelCoder\<close> belong to other modules (\<^verbatim>\<open>./Question\<close>,
  \<^verbatim>\<open>./ResourceRecord\<close>, \<^verbatim>\<open>./DNSLabelCoder\<close>); \<^verbatim>\<open>DNSPacket.ts\<close> only asks them for the
  encoding length of a record. They enter the model as parameters, collected in one record:
  questions are values of a type \<open>'q\<close>, resource records values of a type \<open>'r\<close>, and the
  state of a compressing label coder a value of a type \<open>'c\<close>.
  \<^item> \<open>questionLengthNC\<close>, \<open>recordLengthNC\<close>:
    \<^verbatim>\<open>record.getEncodingLength(NonCompressionLabelCoder.INSTANCE)\<close>, the uncompressed length;
  \<^item> \<open>newCoder legacy\<close>: \<^verbatim>\<open>new DNSLabelCoder(legacy)\<close>;
  \<^item> \<open>questionLength\<close>, \<open>recordLength\<close>: \<^verbatim>\<open>record.getEncodingLength(labelCoder)\<close> with a
    compressing coder, which returns the length and leaves the coder in a new state (the
    names it has seen so far).
  \<^item> \<open>ciaoUPS\<close>: the environment variable \<^verbatim>\<open>CIAO_UPS\<close>, already parsed.
\<close>

record ('q, 'r, 'c) Coders =
  questionLengthNC :: "'q \<Rightarrow> nat"
  recordLengthNC :: "'r \<Rightarrow> nat"
  newCoder :: "bool \<Rightarrow> 'c"
  questionLength :: "'c \<Rightarrow> 'q \<Rightarrow> nat \<times> 'c"
  recordLength :: "'c \<Rightarrow> 'r \<Rightarrow> nat \<times> 'c"
  ciaoUPS :: "nat option"

datatype PacketType = QUERY | RESPONSE

text \<open>
  \<^verbatim>\<open>PacketFlags\<close>: every field is optional in the source; \<open>None\<close> is an absent key.
  \<^verbatim>\<open>deepEqual\<close> on two such objects is equality of the records.
\<close>

record PacketFlags =
  authoritativeAnswer :: "bool option"
  truncation :: "bool option"
  recursionDesired :: "bool option"
  recursionAvailable :: "bool option"
  zeroFlag :: "bool option"
  authenticData :: "bool option"
  checkingDisabled :: "bool option"

definition emptyFlags :: PacketFlags where
  "emptyFlags = \<lparr> authoritativeAnswer = None, truncation = None, recursionDesired = None,
     recursionAvailable = None, zeroFlag = None, authenticData = None,
     checkingDisabled = None \<rparr>"

text \<open>\<^verbatim>\<open>PacketDefinition\<close>, the argument of the constructor.\<close>

record ('q, 'r) PacketDefinition =
  def_id :: "nat option"
  def_legacyUnicast :: "bool option"
  def_type :: PacketType
  def_opcode :: "nat option"
  def_flags :: "PacketFlags option"
  def_rCode :: "nat option"
  def_questions :: "'q list option"
  def_answers :: "'r list option"
  def_authorities :: "'r list option"
  def_additionals :: "'r list option"

text \<open>
  The fields of a \<^verbatim>\<open>DNSPacket\<close> object. \<open>packet_id\<close> is the field \<^verbatim>\<open>id\<close> and
  \<open>packet_type\<close> the field \<^verbatim>\<open>type\<close>; \<^verbatim>\<open>OpCode\<close> and \<^verbatim>\<open>RCode\<close> are numeric enums.
\<close>

record ('q, 'r) DNSPacket =
  packet_id :: nat
  legacyUnicastEncoding :: bool
  packet_type :: PacketType
  opcode :: nat
  flags :: PacketFlags
  rcode :: nat
  questions :: "'q list"
  answers :: "'r list"
  authorities :: "'r list"
  additionals :: "'r list"
  estimatedEncodingLength :: nat
  lastCalculatedLength :: nat
  lengthDirty :: bool

definition UDP_PAYLOAD_SIZE_IPV4 :: "('q, 'r, 'c) Coders \<Rightarrow> nat" where
  "UDP_PAYLOAD_SIZE_IPV4 E = (case ciaoUPS E of Some n \<Rightarrow> n | None \<Rightarrow> 1440)"

definition DNS_PACKET_HEADER_SIZE :: nat where
  "DNS_PACKET_HEADER_SIZE = 12"

text \<open>\<^verbatim>\<open>x || d\<close> on an optional value: the default for an absent one and for a falsy one.\<close>

definition orElseNat :: "nat option \<Rightarrow> nat \<Rightarrow> nat" where
  "orElseNat v d = (case v of None \<Rightarrow> d | Some n \<Rightarrow> (if n = 0 then d else n))"

definition orElseBool :: "bool option \<Rightarrow> bool \<Rightarrow> bool" where
  "orElseBool v d = (case v of None \<Rightarrow> d | Some b \<Rightarrow> (if b then b else d))"

definition orElse :: "'a option \<Rightarrow> 'a \<Rightarrow> 'a" where
  "orElse v d = (case v of None \<Rightarrow> d | Some x \<Rightarrow> x)"

definition newDNSPacket :: "('q, 'r) PacketDefinition \<Rightarrow> ('q, 'r) DNSPacket" where
  "newDNSPacket d =
     \<lparr> packet_id = orElseNat (def_id d) 0,
       legacyUnicastEncoding = orElseBool (def_legacyUnicast d) False,
       packet_type = def_type d,
       opcode = orElseNat (def_opcode d) 0,
       flags = orElse (def_flags d) emptyFlags,
       rcode = orElseNat (def_rCode d) 0,
       questions = orElse (def_questions d) [],
       answers = orElse (def_answers d) [],
       authorities = orElse (def_authorities d) [],
       additionals = orElse (def_additionals d) [],
       estimatedEncodingLength = 0,
       lastCalculatedLength = 0,
       lengthDirty = True \<rparr>"

text \<open>The definition \<^verbatim>\<open>{ type: PacketType.QUERY, questions: qs }\<close> (\<open>qs\<close> may be absent).\<close>

definition queryDefinition :: "'q list option \<Rightarrow> ('q, 'r) PacketDefinition" where
  "queryDefinition qs =
     \<lparr> def_id = None, def_legacyUnicast = None, def_type = QUERY, def_opcode = None,
       def_flags = None, def_rCode = None, def_questions = qs, def_answers = None,
       def_authorities = None, def_additionals = None \<rparr>"

subsection \<open>Lengths and their caches\<close>

text \<open>
  The loops \<^verbatim>\<open>for (const record of section) length += record.getEncodingLength(coder)\<close>.
  With the uncompressed coder the length of a record depends on the record alone; with a
  compressing coder the coder's state is threaded through the records in order.
\<close>

fun sumLengthsNC :: "('a \<Rightarrow> nat) \<Rightarrow> 'a list \<Rightarrow> nat \<Rightarrow> nat" where
  "sumLengthsNC f [] len = len"
| "sumLengthsNC f (x # xs) len = sumLengthsNC f xs (len + f x)"

fun sumLengths :: "('c \<Rightarrow> 'a \<Rightarrow> nat \<times> 'c) \<Rightarrow> 'a list \<Rightarrow> nat \<times> 'c \<Rightarrow> nat \<times> 'c" where
  "sumLengths f [] lc = lc"
| "sumLengths f (x # xs) lc =
     sumLengths f xs (fst lc + fst (f (snd lc) x), snd (f (snd lc) x))"

definition uncompressedLength :: "('q, 'r, 'c) Coders \<Rightarrow> ('q, 'r) DNSPacket \<Rightarrow> nat" where
  "uncompressedLength E p =
     sumLengthsNC (recordLengthNC E) (additionals p)
       (sumLengthsNC (recordLengthNC E) (authorities p)
         (sumLengthsNC (recordLengthNC E) (answers p)
           (sumLengthsNC (questionLengthNC E) (questions p) DNS_PACKET_HEADER_SIZE)))"

definition compressedLength :: "('q, 'r, 'c) Coders \<Rightarrow> ('q, 'r) DNSPacket \<Rightarrow> nat" where
  "compressedLength E p =
     fst (sumLengths (recordLength E) (additionals p)
       (sumLengths (recordLength E) (authorities p)
         (sumLengths (recordLength E) (answers p)
           (sumLengths (questionLength E) (questions p)
             (DNS_PACKET_HEADER_SIZE, newCoder E (legacyUnicastEncoding p))))))"

text \<open>
  \<^verbatim>\<open>getEstimatedEncodingLength()\<close> and \<^verbatim>\<open>getEncodingLength()\<close> return a number and update
  the caches of the packet: the model returns the number and the packet.
\<close>

definition getEstimatedEncodingLength ::
  "('q, 'r, 'c) Coders \<Rightarrow> ('q, 'r) DNSPacket \<Rightarrow> nat \<times> ('q, 'r) DNSPacket" where
  "getEstimatedEncodingLength E p =
     (if estimatedEncodingLength p \<noteq> 0 then (estimatedEncodingLength p, p)
      else (uncompressedLength E p, p\<lparr>estimatedEncodingLength := uncompressedLength E p\<rparr>))"

definition getEncodingLength ::
  "('q, 'r, 'c) Coders \<Rightarrow> ('q, 'r) DNSPacket \<Rightarrow> nat \<times> ('q, 'r) DNSPacket" where
  "getEncodingLength E p =
     (if \<not> lengthDirty p then (lastCalculatedLength p, p)
      else (compressedLength E p,
            p\<lparr>lengthDirty := False, lastCalculatedLength := compressedLength E p,
              estimatedEncodingLength := compressedLength E p\<rparr>))"

text \<open>
  \<^verbatim>\<open>addRecords(recordList, added)\<close>: for each added record the estimate grows when it is
  set, the dirty flag is raised and the record is pushed. The triple is (estimate, dirty
  flag, the section).
\<close>

fun addRecords :: "('a \<Rightarrow> nat) \<Rightarrow> 'a list \<Rightarrow> nat \<times> bool \<times> 'a list \<Rightarrow> nat \<times> bool \<times> 'a list" where
  "addRecords f [] st = st"
| "addRecords f (x # added) (est, dirty, recordList) =
     addRecords f added ((if est \<noteq> 0 then est + f x else est), True, recordList @ [x])"

definition addQuestions ::
  "('q, 'r, 'c) Coders \<Rightarrow> 'q list \<Rightarrow> ('q, 'r) DNSPacket \<Rightarrow> ('q, 'r) DNSPacket" where
  "addQuestions E added p =
     (case addRecords (questionLengthNC E) added
             (estimatedEncodingLength p, lengthDirty p, questions p) of
        (est, dirty, l) \<Rightarrow>
          p\<lparr>questions := l, estimatedEncodingLength := est, lengthDirty := dirty\<rparr>)"

definition addAnswers ::
  "('q, 'r, 'c) Coders \<Rightarrow> 'r list \<Rightarrow> ('q, 'r) DNSPacket \<Rightarrow> ('q, 'r) DNSPacket" where
  "addAnswers E added p =
     (case addRecords (recordLengthNC E) added
             (estimatedEncodingLength p, lengthDirty p, answers p) of
        (est, dirty, l) \<Rightarrow>
          p\<lparr>answers := l, estimatedEncodingLength := est, lengthDirty := dirty\<rparr>)"

definition addAuthorities ::
  "('q, 'r, 'c) Coders \<Rightarrow> 'r list \<Rightarrow> ('q, 'r) DNSPacket \<Rightarrow> ('q, 'r) DNSPacket" where
  "addAuthorities E added p =
     (case addRecords (recordLengthNC E) added
             (estimatedEncodingLength p, lengthDirty p, authorities p) of
        (est, dirty, l) \<Rightarrow>
          p\<lparr>authorities := l, estimatedEncodingLength := est, lengthDirty := dirty\<rparr>)"

definition addAdditionals ::
  "('q, 'r, 'c) Coders \<Rightarrow> 'r list \<Rightarrow> ('q, 'r) DNSPacket \<Rightarrow> ('q, 'r) DNSPacket" where
  "addAdditionals E added p =
     (case addRecords (recordLengthNC E) added
             (estimatedEncodingLength p, lengthDirty p, additionals p) of
        (est, dirty, l) \<Rightarrow>
          p\<lparr>additionals := l, estimatedEncodingLength := est, lengthDirty := dirty\<rparr>)"

definition setLegacyUnicastEncoding :: "bool \<Rightarrow> ('q, 'r) DNSPacket \<Rightarrow> ('q, 'r) DNSPacket" where
  "setLegacyUnicastEncoding b p =
     (if legacyUnicastEncoding p \<noteq> b
      then p\<lparr>lengthDirty := True, legacyUnicastEncoding := b\<rparr>
      else p\<lparr>legacyUnicastEncoding := b\<rparr>)"

subsection \<open>\<^verbatim>\<open>createDNSQueryPackets\<close>\<close>

text \<open>
  \<^verbatim>\<open>DNSQueryDefinition | DNSProbeQueryDefinition\<close>: the questions, and the optional
  known-answers (\<^verbatim>\<open>"answers" in query && definition.answers\<close>) or the optional authorities.
\<close>

record ('q, 'r) QueryDefinition =
  qd_questions :: "'q list"
  qd_answers :: "'r list option"
  qd_authorities :: "'r list option"

text \<open>The two \<^verbatim>\<open>assert.fail\<close> of the function, with the numbers of their messages.\<close>

datatype error = QuerySectionTooLarge nat nat | ProbeTooLarge nat nat

text \<open>
  The known-answer loop works on three variables: the array \<^verbatim>\<open>packets\<close>, the reference
  \<^verbatim>\<open>currentPacket\<close> and the counter \<^verbatim>\<open>i\<close>. Every packet object the function allocates is
  pushed to \<^verbatim>\<open>packets\<close>, so that array is the store of the packet objects: the constant
  \<^verbatim>\<open>packet\<close> is the object at index 0, and \<open>currentPacket\<close> is the index of the object the
  variable \<^verbatim>\<open>currentPacket\<close> refers to. \<open>idx\<close> is the counter \<^verbatim>\<open>i\<close>. The array is never
  empty: \<^verbatim>\<open>packet\<close> is pushed before anything else happens.
\<close>

record ('q, 'r) QueryLoop =
  packets :: "('q, 'r) DNSPacket list"
  currentPacket :: nat
  idx :: nat

definition atPacket ::
  "nat \<Rightarrow> (('q, 'r) DNSPacket \<Rightarrow> ('q, 'r) DNSPacket) \<Rightarrow> ('q, 'r) QueryLoop \<Rightarrow> ('q, 'r) QueryLoop" where
  "atPacket k f s = s\<lparr>packets := (packets s)[k := f (packets s ! k)]\<rparr>"

datatype control = Continue | Break

text \<open>
  The body of the \<^verbatim>\<open>for\<close> loop for one answer. Both size checks read the packet at index
  0, the constant \<^verbatim>\<open>packet\<close>; an accepted answer goes to \<^verbatim>\<open>currentPacket\<close>; in the last
  branch the answer goes to \<^verbatim>\<open>packet\<close> when \<^verbatim>\<open>currentPacket\<close> has neither questions nor
  answers, and the loop is left by \<^verbatim>\<open>break\<close>.
\<close>

definition forBody ::
  "('q, 'r, 'c) Coders \<Rightarrow> nat \<Rightarrow> 'r \<Rightarrow> ('q, 'r) QueryLoop \<Rightarrow> control \<times> ('q, 'r) QueryLoop" where
  "forBody E udpPayloadSize answer s =
     (let estimatedSize = recordLengthNC E answer;
          est = fst (getEstimatedEncodingLength E (packets s ! 0));
          s1 = atPacket 0 (\<lambda>p. snd (getEstimatedEncodingLength E p)) s
      in if est + estimatedSize \<le> udpPayloadSize
         then (Continue, atPacket (currentPacket s1) (addAnswers E [answer]) s1)
         else
           (let len = fst (getEncodingLength E (packets s1 ! 0));
                s2 = atPacket 0 (\<lambda>p. snd (getEncodingLength E p)) s1
            in if len + estimatedSize \<le> udpPayloadSize
               then (Continue, atPacket (currentPacket s2) (addAnswers E [answer]) s2)
               else (Break,
                     if questions (packets s2 ! currentPacket s2) = []
                        \<and> answers (packets s2 ! currentPacket s2) = []
                     then atPacket 0 (addAnswers E [answer]) s2
                     else s2)))"

text \<open>
  \<^verbatim>\<open>for (; i < answers.length; i++) { ... }\<close>: \<^verbatim>\<open>i++\<close> runs after a body that did not
  break; \<^verbatim>\<open>break\<close> leaves \<^verbatim>\<open>i\<close> as it is.
\<close>

function forLoop ::
  "('q, 'r, 'c) Coders \<Rightarrow> nat \<Rightarrow> 'r list \<Rightarrow> ('q, 'r) QueryLoop \<Rightarrow> ('q, 'r) QueryLoop" where
  "forLoop E udpPayloadSize ans s =
     (if idx s < length ans then
        (case forBody E udpPayloadSize (ans ! idx s) s of
           (Continue, s') \<Rightarrow> forLoop E udpPayloadSize ans (s'\<lparr>idx := idx s + 1\<rparr>)
         | (Break, s') \<Rightarrow> s')
      else s)"
  by pat_completeness auto
termination
  by (relation "measure (\<lambda>(E, udpPayloadSize, ans, s). length ans - idx s)") auto

declare forLoop.simps [simp del]

text \<open>
  One round of the \<^verbatim>\<open>while\<close> loop: the \<^verbatim>\<open>for\<close> loop, then, when records are left, the
  truncation flag on \<^verbatim>\<open>currentPacket\<close> and a fresh packet, pushed and made current.
\<close>

definition setTruncation :: "('q, 'r) DNSPacket \<Rightarrow> ('q, 'r) DNSPacket" where
  "setTruncation p = p\<lparr>flags := (flags p)\<lparr>truncation := Some True\<rparr>\<rparr>"

definition whileBody ::
  "('q, 'r, 'c) Coders \<Rightarrow> nat \<Rightarrow> 'r list \<Rightarrow> ('q, 'r) QueryLoop \<Rightarrow> ('q, 'r) QueryLoop" where
  "whileBody E udpPayloadSize ans s =
     (let s' = forLoop E udpPayloadSize ans s
      in if idx s' < length ans
         then s'\<lparr>packets := (packets (atPacket (currentPacket s') setTruncation s'))
                              @ [newDNSPacket (queryDefinition None)],
                 currentPacket := length (packets s')\<rparr>
         else s')"

text \<open>
  \<^verbatim>\<open>while (i < answers.length) { ... }\<close>. Nothing in the source bounds the number of
  rounds, so the loop is a partial function: \<open>None\<close> is a loop that never ends.
\<close>

partial_function (option) whileLoop ::
  "('q, 'r, 'c) Coders \<Rightarrow> nat \<Rightarrow> 'r list \<Rightarrow> ('q, 'r) QueryLoop \<Rightarrow> ('q, 'r) QueryLoop option" where
  "whileLoop E udpPayloadSize ans s =
     (if idx s < length ans
      then whileLoop E udpPayloadSize ans (whileBody E udpPayloadSize ans s)
      else Some s)"

text \<open>The loop variables when the known-answer loop starts.\<close>

definition initialLoop :: "('q, 'r) DNSPacket \<Rightarrow> ('q, 'r) QueryLoop" where
  "initialLoop p = \<lparr> packets = [p], currentPacket = 0, idx = 0 \<rparr>"

text \<open>
  \<^verbatim>\<open>createDNSQueryPackets(definition, udpPayloadSize = this.UDP_PAYLOAD_SIZE_IPV4)\<close>.
  The result is \<open>None\<close> when the call never returns, \<open>Some (Inl e)\<close> when it throws and
  \<open>Some (Inr ps)\<close> when it returns the array \<open>ps\<close>. \<^verbatim>\<open>answers.sort\<close> with the comparator
  of the source is a stable sort on the uncompressed length.
\<close>

definition createDNSQueryPackets ::
  "('q, 'r, 'c) Coders \<Rightarrow> ('q, 'r) QueryDefinition \<Rightarrow> nat option
     \<Rightarrow> (error + ('q, 'r) DNSPacket list) option" where
  "createDNSQueryPackets E d udpPayloadSize =
     (let cap = orElse udpPayloadSize (UDP_PAYLOAD_SIZE_IPV4 E);
          packet0 = newDNSPacket (queryDefinition (Some (qd_questions d)));
          est = fst (getEstimatedEncodingLength E packet0);
          packet1 = snd (getEstimatedEncodingLength E packet0);
          packet2 = (if est > cap then snd (getEncodingLength E packet1) else packet1)
      in if est > cap \<and> fst (getEncodingLength E packet1) > cap
         then Some (Inl (QuerySectionTooLarge (fst (getEncodingLength E packet1)) cap))
         else
           (case qd_answers d of
              Some known \<Rightarrow>
                map_option (\<lambda>s. Inr (packets s))
                  (whileLoop E cap (sort_key (recordLengthNC E) known)
                     (initialLoop packet2))
            | None \<Rightarrow>
                (case qd_authorities d of
                   Some auths \<Rightarrow>
                     (let packet3 = addAuthorities E auths packet2
                      in if fst (getEncodingLength E packet3) > cap
                         then Some (Inl (ProbeTooLarge (fst (getEncodingLength E packet3)) cap))
                         else Some (Inr [snd (getEncodingLength E packet3)]))
                 | None \<Rightarrow> Some (Inr [packet2]))))"

declare whileLoop.simps [code]

subsection \<open>\<^verbatim>\<open>canBeCombinedWith\<close> and \<^verbatim>\<open>combineWith\<close>\<close>

text \<open>
  \<^verbatim>\<open>a.canBeCombinedWith(b, udpPayloadSize = DNSPacket.UDP_PAYLOAD_SIZE_IPV4)\<close>. The
  conjunction of the source is evaluated left to right and stops at the first false
  conjunct, so the two calls of \<^verbatim>\<open>getEncodingLength()\<close> (and their cache updates) happen
  only when the headers agree. The result is the boolean and the two packets.
\<close>

definition canBeCombinedWith ::
  "('q, 'r, 'c) Coders \<Rightarrow> ('q, 'r) DNSPacket \<Rightarrow> ('q, 'r) DNSPacket \<Rightarrow> nat option
     \<Rightarrow> bool \<times> ('q, 'r) DNSPacket \<times> ('q, 'r) DNSPacket" where
  "canBeCombinedWith E a b udpPayloadSize =
     (if packet_id a = packet_id b \<and> packet_type a = packet_type b
         \<and> opcode a = opcode b \<and> flags a = flags b \<and> rcode a = rcode b
      then (fst (getEncodingLength E a) + fst (getEncodingLength E b)
              \<le> orElse udpPayloadSize (UDP_PAYLOAD_SIZE_IPV4 E),
            snd (getEncodingLength E a), snd (getEncodingLength E b))
      else (False, a, b))"

text \<open>\<^verbatim>\<open>a.combineWith(b)\<close>: the packet \<open>a\<close> after the call; \<open>b\<close> is only read.\<close>

definition combineWith ::
  "('q, 'r, 'c) Coders \<Rightarrow> ('q, 'r) DNSPacket \<Rightarrow> ('q, 'r) DNSPacket \<Rightarrow> ('q, 'r) DNSPacket" where
  "combineWith E a b =
     addAdditionals E (additionals b)
       (addAuthorities E (authorities b)
         (addAnswers E (answers b)
           (addQuestions E (questions b)
             (setLegacyUnicastEncoding (legacyUnicastEncoding a \<or> legacyUnicastEncoding b) a))))"

subsection \<open>Invariants of the packet and of the known-answer loop\<close>

text \<open>
  The length cache of a packet is coherent when a clean cache holds the compressed length
  of the packet as it is now. The constructor and every method of the class that changes
  a section or the legacy flag keep it so.
\<close>

definition cacheCoherent :: "('q, 'r, 'c) Coders \<Rightarrow> ('q, 'r) DNSPacket \<Rightarrow> bool" where
  "cacheCoherent E p = (lengthDirty p \<or> lastCalculatedLength p = compressedLength E p)"

text \<open>
  The first packet of \<^verbatim>\<open>createDNSQueryPackets\<close>: no authorities, no additionals, a
  coherent cache.
\<close>

definition mainOK :: "('q, 'r, 'c) Coders \<Rightarrow> ('q, 'r) DNSPacket \<Rightarrow> bool" where
  "mainOK E p = (authorities p = [] \<and> additionals p = [] \<and> cacheCoherent E p)"

text \<open>Both size checks of the loop body fail for a record of uncompressed size \<open>sz\<close>.\<close>

definition rejects :: "('q, 'r, 'c) Coders \<Rightarrow> nat \<Rightarrow> nat \<Rightarrow> ('q, 'r) DNSPacket \<Rightarrow> bool" where
  "rejects E cap sz p =
     (cap < fst (getEstimatedEncodingLength E p) + sz \<and>
      cap < fst (getEncodingLength E (snd (getEstimatedEncodingLength E p))) + sz)"

text \<open>The packet after the two reads of the size checks.\<close>

definition checked :: "('q, 'r, 'c) Coders \<Rightarrow> ('q, 'r) DNSPacket \<Rightarrow> ('q, 'r) DNSPacket" where
  "checked E p = snd (getEncodingLength E (snd (getEstimatedEncodingLength E p)))"

definition wellFormed :: "('q, 'r, 'c) Coders \<Rightarrow> ('q, 'r) QueryLoop \<Rightarrow> bool" where
  "wellFormed E s =
     (packets s \<noteq> [] \<and> currentPacket s < length (packets s) \<and> mainOK E (packets s ! 0))"

text \<open>
  A state of the \<^verbatim>\<open>while\<close> loop in which records are left and the first packet fails
  both size checks for the next one.
\<close>

definition stuck :: "('q, 'r, 'c) Coders \<Rightarrow> nat \<Rightarrow> 'r list \<Rightarrow> ('q, 'r) QueryLoop \<Rightarrow> bool" where
  "stuck E cap ans s =
     (wellFormed E s \<and> idx s < length ans \<and>
      rejects E cap (recordLengthNC E (ans ! idx s)) (packets s ! 0))"

text \<open>
  An instance of the parameters to run the functions on: a question and a record are
  their uncompressed length, and the compressing coder saves nothing.
\<close>

definition plainCoders :: "(nat, nat, unit) Coders" where
  "plainCoders =
     \<lparr> questionLengthNC = (\<lambda>q. q), recordLengthNC = (\<lambda>r. r), newCoder = (\<lambda>legacy. ()),
       questionLength = (\<lambda>c q. (q, c)), recordLength = (\<lambda>c r. (r, c)), ciaoUPS = None \<rparr>"

definition knownAnswerQuery :: "'q list \<Rightarrow> 'r list \<Rightarrow> ('q, 'r) QueryDefinition" where
  "knownAnswerQuery qs known =
     \<lparr> qd_questions = qs, qd_answers = Some known, qd_authorities = None \<rparr>"

text \<open>
  A packet of questions and answers over \<open>plainCoders\<close> with the header of a new query
  packet, to write down what the functions return, and the loop variables of
  \<^verbatim>\<open>createDNSQueryPackets\<close> for one question of size 10, the known-answer list \<open>[200]\<close> and
  a payload size of 100 when the second round of the \<^verbatim>\<open>while\<close> loop starts.
\<close>

definition examplePacket :: "nat list \<Rightarrow> nat list \<Rightarrow> nat \<Rightarrow> nat \<Rightarrow> bool \<Rightarrow> (nat, nat) DNSPacket" where
  "examplePacket qs rs est len dirty =
     \<lparr> packet_id = 0, legacyUnicastEncoding = False, packet_type = QUERY, opcode = 0,
       flags = emptyFlags, rcode = 0, questions = qs, answers = rs, authorities = [],
       additionals = [], estimatedEncodingLength = est, lastCalculatedLength = len,
       lengthDirty = dirty \<rparr>"

definition secondRound :: "(nat, nat) QueryLoop" where
  "secondRound =
     whileBody plainCoders 100 [200]
       (initialLoop (snd (getEstimatedEncodingLength plainCoders
          (newDNSPacket (queryDefinition (Some [10]))))))"

section \<open>The response queue: \<^verbatim>\<open>src/responder/QueuedResponse.ts\<close>\<close>

text \<open>
  What a method does to the event loop is returned as a list of effects, in the order of
  the calls. A timer is known by its handle, the value \<^verbatim>\<open>setTimeout\<close> returns; the handle
  a call of \<^verbatim>\<open>setTimeout\<close> will return is an argument of the function that makes the call,
  as the clock (\<^verbatim>\<open>new Date().getTime()\<close>) and \<^verbatim>\<open>Math.random()\<close> are. Times are
  milliseconds. Questions of an outgoing probe query are \<open>ProbeQuestion\<close>s.
\<close>

record ProbeQuestion =
  q_name :: string
  q_type :: nat
  flag_qu :: bool

datatype 'rec effect =
    SetTimeout nat real
  | ClearTimeout nat
  | SendQuery "ProbeQuestion list" "'rec list"
  | PromiseResolve
  | PromiseReject string
  | Throw string

text \<open>
  The callbacks the event loop holds: a timer that has not fired yet, known by its
  handle, and the completion of a send. \<open>schedule\<close> brings the list of pending
  callbacks up to date with the effects of a step: \<^verbatim>\<open>setTimeout\<close> adds a timer,
  \<^verbatim>\<open>clearTimeout\<close> removes it, a send adds its completion.
\<close>

datatype callback = TimerFired nat | SendComplete

fun schedule :: "'rec effect list \<Rightarrow> callback list \<Rightarrow> callback list" where
  "schedule [] pending = pending"
| "schedule (SetTimeout h d # fx) pending = schedule fx (pending @ [TimerFired h])"
| "schedule (ClearTimeout h # fx) pending = schedule fx (removeAll (TimerFired h) pending)"
| "schedule (SendQuery qs auths # fx) pending = schedule fx (pending @ [SendComplete])"
| "schedule (e # fx) pending = schedule fx pending"

text \<open>
  The fields of a \<^verbatim>\<open>QueuedResponse\<close>. \<open>response_timer\<close> is the field \<^verbatim>\<open>timer\<close>, and
  \<open>response_delay\<close> the field \<^verbatim>\<open>delay\<close>.
\<close>

record ('q, 'r) QueuedResponse =
  packet :: "('q, 'r) DNSPacket"
  interfaceName :: string
  timeOfCreation :: real
  estimatedTimeToBeSent :: real
  response_delay :: real
  response_timer :: "nat option"
  delayed :: "bool option"

definition MAX_DELAY :: real where
  "MAX_DELAY = 500"

text \<open>The constructor, called when the clock shows \<open>now\<close>.\<close>

definition newQueuedResponse :: "real \<Rightarrow> ('q, 'r) DNSPacket \<Rightarrow> string \<Rightarrow> ('q, 'r) QueuedResponse" where
  "newQueuedResponse now p iface =
     \<lparr> packet = p, interfaceName = iface, timeOfCreation = now, estimatedTimeToBeSent = 0,
       response_delay = - 1, response_timer = None, delayed = None \<rparr>"

definition getTotalDelay :: "real \<Rightarrow> ('q, 'r) QueuedResponse \<Rightarrow> real" where
  "getTotalDelay now this = now - timeOfCreation this"

text \<open>\<^verbatim>\<open>calculateRandomDelay()\<close>, with \<open>rnd\<close> the value of \<^verbatim>\<open>Math.random()\<close>.\<close>

definition calculateRandomDelay :: "real \<Rightarrow> real \<Rightarrow> ('q, 'r) QueuedResponse \<Rightarrow> ('q, 'r) QueuedResponse" where
  "calculateRandomDelay now rnd this =
     this\<lparr>response_delay := rnd * 100 + 20, estimatedTimeToBeSent := now + (rnd * 100 + 20)\<rparr>"

text \<open>\<^verbatim>\<open>scheduleResponse(callback)\<close>, with \<open>h\<close> the handle of the new timer.\<close>

definition scheduleResponse ::
  "nat \<Rightarrow> ('q, 'r) QueuedResponse \<Rightarrow> ('q, 'r) QueuedResponse \<times> 'r effect list" where
  "scheduleResponse h this = (this\<lparr>response_timer := Some h\<rparr>, [SetTimeout h (response_delay this)])"

definition delayWouldBeInTimelyManner :: "('q, 'r) QueuedResponse \<Rightarrow> ('q, 'r) QueuedResponse \<Rightarrow> bool" where
  "delayWouldBeInTimelyManner this next =
     (estimatedTimeToBeSent next - timeOfCreation this \<le> MAX_DELAY)"

text \<open>
  \<^verbatim>\<open>this.combineWithNextPacketIfPossible(next, udpPayloadSize)\<close>. The result is the
  boolean, \<open>this\<close> and \<open>next\<close> after the call, and the effects (\<open>mergeResult\<close> and
  \<open>mergedNext\<close> below are the first and the third of them). The check of
  \<^verbatim>\<open>delayWouldBeInTimelyManner\<close> at the head of the method is commented out in the source
  and so is no part of the function.
\<close>

definition combineWithNextPacketIfPossible ::
  "('q, 'r, 'c) Coders \<Rightarrow> ('q, 'r) QueuedResponse \<Rightarrow> ('q, 'r) QueuedResponse \<Rightarrow> nat option
     \<Rightarrow> bool \<times> ('q, 'r) QueuedResponse \<times> ('q, 'r) QueuedResponse \<times> 'r effect list" where
  "combineWithNextPacketIfPossible E this next udpPayloadSize =
     (if interfaceName this \<noteq> interfaceName next then (False, this, next, [])
      else
        (case canBeCombinedWith E (packet next) (packet this) udpPayloadSize of
           (False, np, tp) \<Rightarrow> (False, this\<lparr>packet := tp\<rparr>, next\<lparr>packet := np\<rparr>, [])
         | (True, np, tp) \<Rightarrow>
             (True,
              this\<lparr>packet := tp, response_timer := None, delayed := Some True\<rparr>,
              next\<lparr>packet := combineWith E np tp,
                   timeOfCreation := min (timeOfCreation this) (timeOfCreation next)\<rparr>,
              (case response_timer this of Some h \<Rightarrow> [ClearTimeout h] | None \<Rightarrow> []))))"

definition mergeResult ::
  "('q, 'r, 'c) Coders \<Rightarrow> ('q, 'r) QueuedResponse \<Rightarrow> ('q, 'r) QueuedResponse \<Rightarrow> nat option \<Rightarrow> bool" where
  "mergeResult E this next udpPayloadSize =
     fst (combineWithNextPacketIfPossible E this next udpPayloadSize)"

definition mergedNext ::
  "('q, 'r, 'c) Coders \<Rightarrow> ('q, 'r) QueuedResponse \<Rightarrow> ('q, 'r) QueuedResponse \<Rightarrow> nat option
     \<Rightarrow> ('q, 'r) QueuedResponse" where
  "mergedNext E this next udpPayloadSize =
     fst (snd (snd (combineWithNextPacketIfPossible E this next udpPayloadSize)))"

text \<open>
  \<^verbatim>\<open>createDNSResponsePacketsFromRRSet(definition, udpPayloadSize)\<close> of \<^verbatim>\<open>DNSPacket.ts\<close>,
  which builds the packets the queue holds, and its argument.
\<close>

record ('q, 'r) ResponseDefinition =
  rd_id :: "nat option"
  rd_questions :: "'q list option"
  rd_answers :: "'r list"
  rd_additionals :: "'r list option"
  rd_legacyUnicast :: "bool option"

datatype response_error = ResponseTooLarge

definition responsePacket :: "('q, 'r) ResponseDefinition \<Rightarrow> ('q, 'r) DNSPacket" where
  "responsePacket d =
     newDNSPacket
       \<lparr> def_id = rd_id d, def_legacyUnicast = rd_legacyUnicast d, def_type = RESPONSE,
         def_opcode = None,
         def_flags = Some (emptyFlags\<lparr>authoritativeAnswer := Some True\<rparr>),
         def_rCode = None, def_questions = rd_questions d, def_answers = Some (rd_answers d),
         def_authorities = None, def_additionals = rd_additionals d \<rparr>"

definition createDNSResponsePacketsFromRRSet ::
  "('q, 'r, 'c) Coders \<Rightarrow> ('q, 'r) ResponseDefinition \<Rightarrow> nat option
     \<Rightarrow> response_error + ('q, 'r) DNSPacket" where
  "createDNSResponsePacketsFromRRSet E d udpPayloadSize =
     (if fst (getEncodingLength E (responsePacket d)) > orElse udpPayloadSize (UDP_PAYLOAD_SIZE_IPV4 E)
      then Inl ResponseTooLarge
      else Inr (snd (getEncodingLength E (responsePacket d))))"

text \<open>
  A queued response on the interface \<^verbatim>\<open>en0\<close> to run the functions on: created at
  \<open>created\<close>, to be sent at \<open>due\<close>, with a timer \<open>h\<close> and a response packet over
  \<open>plainCoders\<close> with the answers \<open>rs\<close>.
\<close>

definition exampleResponse :: "real \<Rightarrow> real \<Rightarrow> nat \<Rightarrow> nat list \<Rightarrow> (nat, nat) QueuedResponse" where
  "exampleResponse created due h rs =
     (newQueuedResponse created
        (responsePacket \<lparr> rd_id = None, rd_questions = None, rd_answers = rs,
           rd_additionals = None, rd_legacyUnicast = None \<rparr>) ''en0'')
       \<lparr>estimatedTimeToBeSent := due, response_delay := due - created, response_timer := Some h\<rparr>"

section \<open>The prober: the class \<^verbatim>\<open>Prober\<close>\<close>

text \<open>
  The prober works on a \<^verbatim>\<open>CiaoService\<close> and uses \<^verbatim>\<open>dnsEqual\<close>, \<^verbatim>\<open>rrComparator\<close> and
  \<^verbatim>\<open>runTiebreaking\<close> of \<^verbatim>\<open>./util\<close> and the package \<^verbatim>\<open>@homebridge/dns-packet\<close>, all of
  them other modules. They enter the model as parameters: a service is a value of a type
  \<open>'svc\<close>, a decoded record a value of a type \<open>'rec\<close>.
  \<^item> \<open>getFQDN\<close>, \<open>getHostname\<close>, \<open>incrementName\<close>: the methods of the service;
  \<^item> \<open>serviceRecords\<close>: the records of the service (SRV, TXT, PTR, subtype PTRs, addresses)
    after \<^verbatim>\<open>dnsPacket.decode(dnsPacket.encode({answers: [...]})).answers\<close>;
  \<^item> \<open>sortRecords\<close>: \<^verbatim>\<open>Array.sort(rrComparator)\<close>;
  \<^item> \<open>runTiebreaking\<close>, \<open>dnsEqual\<close>: the functions of these names;
  \<^item> \<open>recordName\<close>: the field \<^verbatim>\<open>name\<close> of a decoded record.
\<close>

datatype TiebreakingResult = OPPONENT | TIE | HOST

record ('svc, 'rec) ProberEnv =
  getFQDN :: "'svc \<Rightarrow> string"
  getHostname :: "'svc \<Rightarrow> string"
  incrementName :: "'svc \<Rightarrow> 'svc"
  serviceRecords :: "'svc \<Rightarrow> 'rec list"
  sortRecords :: "'rec list \<Rightarrow> 'rec list"
  runTiebreaking :: "'rec list \<Rightarrow> 'rec list \<Rightarrow> TiebreakingResult"
  dnsEqual :: "string \<Rightarrow> string \<Rightarrow> bool"
  recordName :: "'rec \<Rightarrow> string"

text \<open>A \<^verbatim>\<open>DecodedDnsPacket\<close>: the four sections the prober reads.\<close>

record 'rec DecodedDnsPacket =
  d_questions :: "ProbeQuestion list"
  d_answers :: "'rec list"
  d_authorities :: "'rec list"
  d_additionals :: "'rec list"

text \<open>
  The fields of a \<^verbatim>\<open>Prober\<close>. \<open>promise\<close> says that \<^verbatim>\<open>promiseResolve\<close> and
  \<^verbatim>\<open>promiseReject\<close> are set (\<^verbatim>\<open>probe()\<close> sets both); \<open>timer\<close> is the handle in the field
  \<^verbatim>\<open>timer\<close>. Every timer of the prober calls \<^verbatim>\<open>sendProbeRequest\<close>.
\<close>

record ('svc, 'rec) Prober =
  service :: 'svc
  records :: "'rec list"
  startTime :: "int option"
  timer :: "nat option"
  promise :: bool
  sentFirstProbeQuery :: bool
  sentQueries :: nat

definition PROBE_INTERVAL :: real where
  "PROBE_INTERVAL = 250"

definition TYPE_ANY :: nat where
  "TYPE_ANY = 255"

definition newProber :: "'svc \<Rightarrow> ('svc, 'rec) Prober" where
  "newProber svc =
     \<lparr> service = svc, records = [], startTime = None, timer = None, promise = False,
       sentFirstProbeQuery = False, sentQueries = 0 \<rparr>"

text \<open>
  \<^verbatim>\<open>probe()\<close>, called when the clock shows \<open>now\<close>, with \<open>rnd\<close> the value of
  \<^verbatim>\<open>Math.random()\<close> and \<open>h\<close> the handle of the new timer.
\<close>

definition probe ::
  "int \<Rightarrow> real \<Rightarrow> nat \<Rightarrow> ('svc, 'rec) Prober \<Rightarrow> ('svc, 'rec) Prober \<times> 'rec effect list" where
  "probe now rnd h s =
     (s\<lparr>startTime := Some now, promise := True, timer := Some h\<rparr>,
      [SetTimeout h (rnd * PROBE_INTERVAL)])"

text \<open>
  \<^verbatim>\<open>endProbing(success)\<close>. \<^verbatim>\<open>this.promiseResolve!()\<close> on an unset field throws a
  \<^verbatim>\<open>TypeError\<close>; it is the last statement of the method.
\<close>

definition endProbing ::
  "bool \<Rightarrow> ('svc, 'rec) Prober \<Rightarrow> ('svc, 'rec) Prober \<times> 'rec effect list" where
  "endProbing success s =
     (s\<lparr>timer := None, sentFirstProbeQuery := False, sentQueries := 0\<rparr>,
      (case timer s of Some h \<Rightarrow> [ClearTimeout h] | None \<Rightarrow> [])
      @ (if success then (if promise s then [PromiseResolve] else [Throw ''TypeError''])
         else []))"

text \<open>
  The questions of a probe query, and the test
  \<^verbatim>\<open>new Date().getTime() - this.startTime! > 60000\<close>: with \<^verbatim>\<open>startTime\<close> unset the
  difference is \<^verbatim>\<open>NaN\<close> and the comparison is false.
\<close>

definition probeQuestions :: "('svc, 'rec) ProberEnv \<Rightarrow> 'svc \<Rightarrow> ProbeQuestion list" where
  "probeQuestions P svc =
     [\<lparr> q_name = getFQDN P svc, q_type = TYPE_ANY, flag_qu = True \<rparr>,
      \<lparr> q_name = getHostname P svc, q_type = TYPE_ANY, flag_qu = True \<rparr>]"

definition probingTimedOut :: "int \<Rightarrow> int option \<Rightarrow> bool" where
  "probingTimedOut now start = (case start of None \<Rightarrow> False | Some t \<Rightarrow> now - t > 60000)"

text \<open>
  \<^verbatim>\<open>sendProbeRequest()\<close>, called when the clock shows \<open>now\<close>. The callback handed to
  \<^verbatim>\<open>server.sendQuery\<close> is \<open>querySent\<close> below; it runs when the server calls it.
\<close>

definition sendProbeRequest ::
  "('svc, 'rec) ProberEnv \<Rightarrow> int \<Rightarrow> ('svc, 'rec) Prober \<Rightarrow> ('svc, 'rec) Prober \<times> 'rec effect list" where
  "sendProbeRequest P now s =
     (let s1 = (if sentQueries s = 0
                then s\<lparr>records := sortRecords P (serviceRecords P (service s))\<rparr>
                else s)
      in if sentQueries s1 \<ge> 3 then endProbing True s1
         else if probingTimedOut now (startTime s1)
         then (fst (endProbing False s1),
               snd (endProbing False s1)
               @ (if promise s1 then [PromiseReject ''timeout''] else [Throw ''TypeError'']))
         else if records s1 = []
         then (s1, [Throw ''AssertionError''])
         else (s1, [SendQuery (probeQuestions P (service s1)) (records s1)]))"

text \<open>The callback of \<^verbatim>\<open>server.sendQuery\<close>, with \<open>h\<close> the handle of the new timer.\<close>

definition querySent ::
  "nat \<Rightarrow> ('svc, 'rec) Prober \<Rightarrow> ('svc, 'rec) Prober \<times> 'rec effect list" where
  "querySent h s =
     (s\<lparr>sentFirstProbeQuery := True, sentQueries := sentQueries s + 1, timer := Some h\<rparr>,
      [SetTimeout h PROBE_INTERVAL])"

text \<open>The test of a name against the names of the service, used by all three handlers.\<close>

definition matchesService :: "('svc, 'rec) ProberEnv \<Rightarrow> 'svc \<Rightarrow> string \<Rightarrow> bool" where
  "matchesService P svc n = (dnsEqual P n (getFQDN P svc) \<or> dnsEqual P n (getHostname P svc))"

text \<open>
  The three searches of the handlers, under the names of the variables that hold their
  results in the source: \<^verbatim>\<open>containsAnswer\<close> (answers and additionals of a response),
  \<^verbatim>\<open>needsTiebreaking\<close> (questions of a query) and \<^verbatim>\<open>conflict\<close> (authorities of a query:
  true from the start when there are none).
\<close>

definition containsAnswer ::
  "('svc, 'rec) ProberEnv \<Rightarrow> 'svc \<Rightarrow> 'rec DecodedDnsPacket \<Rightarrow> bool" where
  "containsAnswer P svc pkt =
     (list_ex (\<lambda>r. matchesService P svc (recordName P r)) (d_answers pkt)
      \<or> list_ex (\<lambda>r. matchesService P svc (recordName P r)) (d_additionals pkt))"

definition needsTiebreaking ::
  "('svc, 'rec) ProberEnv \<Rightarrow> 'svc \<Rightarrow> 'rec DecodedDnsPacket \<Rightarrow> bool" where
  "needsTiebreaking P svc pkt = list_ex (\<lambda>q. matchesService P svc (q_name q)) (d_questions pkt)"

definition conflict ::
  "('svc, 'rec) ProberEnv \<Rightarrow> 'svc \<Rightarrow> 'rec DecodedDnsPacket \<Rightarrow> bool" where
  "conflict P svc pkt =
     (d_authorities pkt = []
      \<or> list_ex (\<lambda>r. matchesService P svc (recordName P r)) (d_authorities pkt))"

text \<open>\<^verbatim>\<open>handleResponse(packet)\<close>, called when the clock shows \<open>now\<close>.\<close>

definition handleResponse ::
  "('svc, 'rec) ProberEnv \<Rightarrow> int \<Rightarrow> 'rec DecodedDnsPacket \<Rightarrow> ('svc, 'rec) Prober
     \<Rightarrow> ('svc, 'rec) Prober \<times> 'rec effect list" where
  "handleResponse P now pkt s =
     (if \<not> sentFirstProbeQuery s then (s, [])
      else if containsAnswer P (service s) pkt
      then (let s1 = fst (endProbing False s);
                s2 = s1\<lparr>service := incrementName P (service s1)\<rparr>
            in (fst (sendProbeRequest P now s2),
                snd (endProbing False s) @ snd (sendProbeRequest P now s2)))
      else (s, []))"

text \<open>
  \<^verbatim>\<open>doTiebreaking(packet)\<close>, with \<open>h\<close> the handle of the timer it may start. The sort of
  \<^verbatim>\<open>packet.authorities\<close> is in place in the source; the packet is not used afterwards.
\<close>

definition doTiebreaking ::
  "('svc, 'rec) ProberEnv \<Rightarrow> nat \<Rightarrow> 'rec DecodedDnsPacket \<Rightarrow> ('svc, 'rec) Prober
     \<Rightarrow> ('svc, 'rec) Prober \<times> 'rec effect list" where
  "doTiebreaking P h pkt s =
     (if \<not> sentFirstProbeQuery s then (s, [])
      else if \<not> conflict P (service s) pkt then (s, [])
      else
        (case runTiebreaking P (records s) (sortRecords P (d_authorities pkt)) of
           HOST \<Rightarrow> (s, [])
         | OPPONENT \<Rightarrow>
             ((fst (endProbing False s))\<lparr>timer := Some h\<rparr>,
              snd (endProbing False s) @ [SetTimeout h 1000])
         | TIE \<Rightarrow> (s, [])))"

text \<open>\<^verbatim>\<open>handleQuery(packet)\<close>.\<close>

definition handleQuery ::
  "('svc, 'rec) ProberEnv \<Rightarrow> nat \<Rightarrow> 'rec DecodedDnsPacket \<Rightarrow> ('svc, 'rec) Prober
     \<Rightarrow> ('svc, 'rec) Prober \<times> 'rec effect list" where
  "handleQuery P h pkt s =
     (if \<not> sentFirstProbeQuery s then (s, [])
      else if needsTiebreaking P (service s) pkt
      then doTiebreaking P h pkt s
      else (s, []))"

subsection \<open>The event loop of a prober that receives nothing\<close>



subsection \<open>An instance of the parameters\<close>

text \<open>
  To run the prober: a service is its name and its host name, and
  \<^verbatim>\<open>incrementName\<close> appends a suffix to both; a record is its name and one number for its
  data; records are sorted by the number, and the tiebreak compares the numbers of the
  two sorted lists in order, the larger number and then the longer list winning
  (RFC 6762, section 8.2); names are compared as they are.
\<close>

fun exampleTiebreak :: "(string \<times> nat) list \<Rightarrow> (string \<times> nat) list \<Rightarrow> TiebreakingResult" where
  "exampleTiebreak [] [] = TIE"
| "exampleTiebreak [] (y # ys) = OPPONENT"
| "exampleTiebreak (x # xs) [] = HOST"
| "exampleTiebreak (x # xs) (y # ys) =
     (if snd x < snd y then OPPONENT
      else if snd y < snd x then HOST
      else exampleTiebreak xs ys)"

definition exampleEnv :: "(string \<times> string, string \<times> nat) ProberEnv" where
  "exampleEnv =
     \<lparr> getFQDN = (\<lambda>svc. fst svc @ ''._hap._tcp.local''),
       getHostname = (\<lambda>svc. snd svc @ ''.local''),
       incrementName = (\<lambda>svc. (fst svc @ '' (2)'', snd svc @ ''-2'')),
       serviceRecords = (\<lambda>svc. [(fst svc @ ''._hap._tcp.local'', 33), (snd svc @ ''.local'', 1)]),
       sortRecords = sort_key snd,
       runTiebreaking = exampleTiebreak,
       dnsEqual = (\<lambda>a b. a = b),
       recordName = fst \<rparr>"

definition lamp :: "string \<times> string" where
  "lamp = (''Lamp'', ''lamp'')"

text \<open>
  The prober of \<open>lamp\<close> after \<^verbatim>\<open>probe()\<close> at time 0, the first call of
  \<^verbatim>\<open>sendProbeRequest\<close> at time 10 and the completion of that send.
\<close>

definition afterFirstProbe :: "(string \<times> string, string \<times> nat) Prober" where
  "afterFirstProbe =
     fst (querySent 1 (fst (sendProbeRequest exampleEnv 10 (fst (probe 0 0 0 (newProber lamp))))))"

text \<open>
  A query for the name of \<open>lamp\<close> whose only authority record has another name and
  larger data than the records of \<open>lamp\<close>, and a response with an answer for the name
  of \<open>lamp\<close>.
\<close>

definition foreignQuery :: "(string \<times> nat) DecodedDnsPacket" where
  "foreignQuery =
     \<lparr> d_questions = [\<lparr> q_name = ''Lamp._hap._tcp.local'', q_type = TYPE_ANY, flag_qu = False \<rparr>],
       d_answers = [], d_authorities = [(''other.local'', 40)], d_additionals = [] \<rparr>"

definition conflictingResponse :: "(string \<times> nat) DecodedDnsPacket" where
  "conflictingResponse =
     \<lparr> d_questions = [], d_answers = [(''Lamp._hap._tcp.local'', 33)], d_authorities = [],
       d_additionals = [] \<rparr>"

text \<open>
  The prober of \<open>lamp\<close> after two more probes, sent at 30000 and at 59900: three probes
  are out, the timer set by the completion of the third is pending, the promise is open.
\<close>

definition afterThirdProbe :: "(string \<times> string, string \<times> nat) Prober" where
  "afterThirdProbe =
     fst (querySent 3 (fst (sendProbeRequest exampleEnv 59900
       (fst (querySent 2 (fst (sendProbeRequest exampleEnv 30000 afterFirstProbe)))))))"

section \<open>Properties of the packet codec\<close>

subsection \<open>Lengths and caches\<close>

lemma sumLengths_append:
  "sumLengths f (xs @ [x]) lc =
     (fst (sumLengths f xs lc) + fst (f (snd (sumLengths f xs lc)) x),
      snd (f (snd (sumLengths f xs lc)) x))"
  by (induction xs arbitrary: lc) simp_all

lemma sumLengthsNC_ge: "k \<le> n \<Longrightarrow> k \<le> sumLengthsNC f xs n"
  by (induction xs arbitrary: n) simp_all

lemma sumLengths_ge: "n \<le> fst lc \<Longrightarrow> n \<le> fst (sumLengths f xs lc)"
  by (induction xs arbitrary: lc) simp_all

lemma compressedLength_pos: "0 < compressedLength E p"
proof -
  have "DNS_PACKET_HEADER_SIZE \<le> compressedLength E p"
    unfolding compressedLength_def by (intro sumLengths_ge) simp
  then show ?thesis by (simp add: DNS_PACKET_HEADER_SIZE_def)
qed

lemma uncompressedLength_pos: "0 < uncompressedLength E p"
proof -
  have "DNS_PACKET_HEADER_SIZE \<le> uncompressedLength E p"
    unfolding uncompressedLength_def by (intro sumLengthsNC_ge) simp
  then show ?thesis by (simp add: DNS_PACKET_HEADER_SIZE_def)
qed

lemma addAnswers_single:
  "addAnswers E [a] p =
     p\<lparr>answers := answers p @ [a],
       estimatedEncodingLength :=
         (if estimatedEncodingLength p \<noteq> 0 then estimatedEncodingLength p + recordLengthNC E a
          else estimatedEncodingLength p),
       lengthDirty := True\<rparr>"
  by (simp add: addAnswers_def)

lemma compressedLength_addAnswers:
  "authorities p = [] \<Longrightarrow> additionals p = [] \<Longrightarrow>
     compressedLength E p \<le> compressedLength E (addAnswers E [a] p)"
  by (simp add: addAnswers_single compressedLength_def sumLengths_append)

lemma compressedLength_cache [simp]:
  "compressedLength E (p\<lparr>estimatedEncodingLength := x\<rparr>) = compressedLength E p"
  "compressedLength E (p\<lparr>lastCalculatedLength := y\<rparr>) = compressedLength E p"
  "compressedLength E (p\<lparr>lengthDirty := z\<rparr>) = compressedLength E p"
  "compressedLength E (p\<lparr>flags := w\<rparr>) = compressedLength E p"
  by (simp_all add: compressedLength_def)

lemma uncompressedLength_cache [simp]:
  "uncompressedLength E (p\<lparr>estimatedEncodingLength := x\<rparr>) = uncompressedLength E p"
  "uncompressedLength E (p\<lparr>lastCalculatedLength := y\<rparr>) = uncompressedLength E p"
  "uncompressedLength E (p\<lparr>lengthDirty := z\<rparr>) = uncompressedLength E p"
  "uncompressedLength E (p\<lparr>flags := w\<rparr>) = uncompressedLength E p"
  by (simp_all add: uncompressedLength_def)

lemma mainOK_checked: "mainOK E p \<Longrightarrow> mainOK E (checked E p)"
  by (auto simp: mainOK_def cacheCoherent_def checked_def getEncodingLength_def getEstimatedEncodingLength_def)

lemma mainOK_est: "mainOK E p \<Longrightarrow> mainOK E (snd (getEstimatedEncodingLength E p))"
  by (auto simp: mainOK_def cacheCoherent_def getEstimatedEncodingLength_def)

lemma mainOK_enc: "mainOK E p \<Longrightarrow> mainOK E (snd (getEncodingLength E p))"
  by (auto simp: mainOK_def cacheCoherent_def getEncodingLength_def)

lemma mainOK_addAnswers: "mainOK E p \<Longrightarrow> mainOK E (addAnswers E [a] p)"
  by (auto simp: mainOK_def cacheCoherent_def addAnswers_single)

lemma mainOK_setTruncation: "mainOK E p \<Longrightarrow> mainOK E (setTruncation p)"
  by (auto simp: mainOK_def cacheCoherent_def setTruncation_def)

lemma rejects_checked:
  "rejects E cap sz p \<Longrightarrow> rejects E cap sz (checked E p)"
  by (auto simp: rejects_def checked_def getEncodingLength_def getEstimatedEncodingLength_def
      compressedLength_pos uncompressedLength_pos split: if_splits)

lemma rejects_setTruncation:
  "rejects E cap sz p \<Longrightarrow> rejects E cap sz (setTruncation p)"
  by (auto simp: rejects_def setTruncation_def getEncodingLength_def getEstimatedEncodingLength_def
      split: if_splits)

lemma rejects_added:
  assumes "rejects E cap (recordLengthNC E a) p" "mainOK E p"
  shows "rejects E cap (recordLengthNC E a) (addAnswers E [a] (checked E p))"
proof -
  have m: "compressedLength E (checked E p) \<le> compressedLength E (addAnswers E [a] (checked E p))"
    using mainOK_checked[OF assms(2)] by (intro compressedLength_addAnswers) (simp_all add: mainOK_def cacheCoherent_def)
  have c: "compressedLength E (checked E p) = compressedLength E p"
    by (simp add: checked_def getEncodingLength_def getEstimatedEncodingLength_def)
  have a: "compressedLength E p \<le> compressedLength E (p\<lparr>answers := answers p @ [a]\<rparr>)"
    using assms(2) by (simp add: mainOK_def cacheCoherent_def compressedLength_def sumLengths_append)
  show ?thesis
    using assms compressedLength_pos[of E p] uncompressedLength_pos[of E p]
    by (auto simp: rejects_def mainOK_def cacheCoherent_def checked_def getEncodingLength_def getEstimatedEncodingLength_def
      addAnswers_single compressedLength_def sumLengths_append split: if_splits)
qed


subsection \<open>The known-answer loop\<close>

text \<open>
  The loop body breaks exactly when the first packet fails both size checks; it never
  changes the counter, the current packet or the number of packets.
\<close>

lemma forBody_fst:
  "fst (forBody E cap a s) = Break \<longleftrightarrow> rejects E cap (recordLengthNC E a) (packets s ! 0)" if "packets s \<noteq> []"
  using that by (auto simp: forBody_def Let_def rejects_def atPacket_def)

lemma forBody_shape:
  "idx (snd (forBody E cap a s)) = idx s \<and> currentPacket (snd (forBody E cap a s)) = currentPacket s
     \<and> length (packets (snd (forBody E cap a s))) = length (packets s)"
  by (simp add: forBody_def Let_def atPacket_def)

lemma forBody_break_main:
  assumes "packets s \<noteq> []" "rejects E cap (recordLengthNC E a) (packets s ! 0)"
  shows "packets (snd (forBody E cap a s)) ! 0 = checked E (packets s ! 0)
        \<or> packets (snd (forBody E cap a s)) ! 0 = addAnswers E [a] (checked E (packets s ! 0))"
  using assms by (auto simp: forBody_def Let_def rejects_def atPacket_def checked_def)

lemma forBody_wf:
  assumes "wellFormed E s"
  shows "wellFormed E (snd (forBody E cap a s))"
proof -
  have 1: "mainOK E (snd (getEstimatedEncodingLength E (packets s ! 0)))"
    using assms by (simp add: wellFormed_def mainOK_est)
  have 2: "mainOK E (checked E (packets s ! 0))"
    using assms by (simp add: wellFormed_def mainOK_checked)
  show ?thesis
    using assms 1 2 mainOK_addAnswers[OF 1, of a] mainOK_addAnswers[OF 2, of a]
    by (auto simp: forBody_def Let_def wellFormed_def atPacket_def checked_def nth_list_update)
qed

lemma forBody_break_rejects:
  assumes "wellFormed E s" "rejects E cap (recordLengthNC E a) (packets s ! 0)"
  shows "rejects E cap (recordLengthNC E a) (packets (snd (forBody E cap a s)) ! 0)"
  using forBody_break_main[of s E cap a] assms rejects_checked[OF assms(2)] rejects_added[OF assms(2)]
  by (auto simp: wellFormed_def)

lemma forLoop_post:
  "wellFormed E s \<Longrightarrow> idx s \<le> length ans \<Longrightarrow>
     wellFormed E (forLoop E cap ans s) \<and> length (packets (forLoop E cap ans s)) = length (packets s)
     \<and> idx (forLoop E cap ans s) \<le> length ans
     \<and> currentPacket (forLoop E cap ans s) = currentPacket s
     \<and> (idx (forLoop E cap ans s) < length ans \<longrightarrow>
          rejects E cap (recordLengthNC E (ans ! idx (forLoop E cap ans s))) (packets (forLoop E cap ans s) ! 0))"
proof (induction E cap ans s rule: forLoop.induct)
  case (1 E cap ans s)
  show ?case
  proof (cases "idx s < length ans")
    case False
    with "1.prems" show ?thesis by (simp add: forLoop.simps[of E cap ans s])
  next
    case True
    obtain c s' where b: "forBody E cap (ans ! idx s) s = (c, s')" by (cases "forBody E cap (ans ! idx s) s")
    have ne: "packets s \<noteq> []" using "1.prems" by (simp add: wellFormed_def)
    have sh: "idx s' = idx s" "currentPacket s' = currentPacket s" "length (packets s') = length (packets s)"
      using forBody_shape[of E cap "ans ! idx s" s] b by simp_all
    have w: "wellFormed E s'" using forBody_wf[OF "1.prems"(1), of cap "ans ! idx s"] b by simp
    show ?thesis
    proof (cases c)
      case Continue
      have w': "wellFormed E (s'\<lparr>idx := idx s + 1\<rparr>)" using w by (simp add: wellFormed_def)
      have "idx (s'\<lparr>idx := idx s + 1\<rparr>) \<le> length ans" using True by simp
      from "1.IH"[OF True b[symmetric] Continue w' this] sh
      show ?thesis using True b Continue by (simp add: forLoop.simps[of E cap ans s])
    next
      case Break
      have r: "rejects E cap (recordLengthNC E (ans ! idx s)) (packets s ! 0)"
        using forBody_fst[OF ne, of E cap "ans ! idx s"] b Break by simp
      have "rejects E cap (recordLengthNC E (ans ! idx s)) (packets s' ! 0)"
        using forBody_break_rejects[OF "1.prems"(1) r] b by simp
      then show ?thesis using True b Break w sh by (simp add: forLoop.simps[of E cap ans s])
    qed
  qed
qed

text \<open>
  A stuck state stays stuck: the \<^verbatim>\<open>for\<close> loop breaks at once and leaves the counter
  where it is, the first packet can only have grown, and the round ends with one more
  packet. So the \<^verbatim>\<open>while\<close> loop never ends from a stuck state.
\<close>

lemma forLoop_stuck:
  assumes "stuck E cap ans s"
  shows "stuck E cap ans (forLoop E cap ans s) \<and> length (packets (forLoop E cap ans s)) = length (packets s)
     \<and> currentPacket (forLoop E cap ans s) = currentPacket s"
proof -
  have ne: "packets s \<noteq> []" and w: "wellFormed E s" and lt: "idx s < length ans"
    and r: "rejects E cap (recordLengthNC E (ans ! idx s)) (packets s ! 0)"
    using assms by (simp_all add: stuck_def wellFormed_def)
  obtain s' where b: "forBody E cap (ans ! idx s) s = (Break, s')"
    using forBody_fst[OF ne, of E cap "ans ! idx s"] r by (cases "forBody E cap (ans ! idx s) s") auto
  have f: "forLoop E cap ans s = s'" using lt b by (simp add: forLoop.simps[of E cap ans s])
  have sh: "idx s' = idx s" "currentPacket s' = currentPacket s" "length (packets s') = length (packets s)"
    using forBody_shape[of E cap "ans ! idx s" s] b by simp_all
  have "wellFormed E s'" using forBody_wf[OF w, of cap "ans ! idx s"] b by simp
  moreover have "rejects E cap (recordLengthNC E (ans ! idx s)) (packets s' ! 0)"
    using forBody_break_rejects[OF w r] b by simp
  ultimately show ?thesis using f sh lt by (simp add: stuck_def)
qed

lemma whileBody_stuck:
  assumes "stuck E cap ans s"
  shows "stuck E cap ans (whileBody E cap ans s)"
proof -
  let ?s = "forLoop E cap ans s"
  have st: "stuck E cap ans ?s" using forLoop_stuck[OF assms] by simp
  then have lt: "idx ?s < length ans" and ne: "packets ?s \<noteq> []" and cur: "currentPacket ?s < length (packets ?s)"
    and m: "mainOK E (packets ?s ! 0)"
    and r: "rejects E cap (recordLengthNC E (ans ! idx ?s)) (packets ?s ! 0)"
    by (simp_all add: stuck_def wellFormed_def)
  have len0: "0 < length (packets ?s)" using ne by simp
  show ?thesis
    using lt ne cur m r len0 mainOK_setTruncation[OF m] rejects_setTruncation[OF r]
    by (auto simp: whileBody_def Let_def stuck_def wellFormed_def atPacket_def nth_append nth_list_update)
qed

lemma stuck_diverges:
  assumes "stuck E cap ans s"
  shows "whileLoop E cap ans s = None"
proof (rule ccontr)
  assume "whileLoop E cap ans s \<noteq> None"
  then obtain y where y: "whileLoop E cap ans s = Some y" by auto
  have "\<not> stuck E cap ans s"
  proof (rule whileLoop.raw_induct[where P = "\<lambda>E cap ans s y. \<not> stuck E cap ans s", OF _ y])
    fix f :: "('a, 'b, 'c) Coders \<Rightarrow> nat \<Rightarrow> 'b list \<Rightarrow> ('a, 'b) QueryLoop \<Rightarrow> ('a, 'b) QueryLoop option"
    fix E cap ans s y
    assume ih: "\<And>E cap ans s y. f E cap ans s = Some y \<Longrightarrow> \<not> stuck E cap ans s"
      and eq: "(if idx s < length ans then f E cap ans (whileBody E cap ans s) else Some s) = Some y"
    show "\<not> stuck E cap ans s"
    proof
      assume st: "stuck E cap ans s"
      then have "idx s < length ans" by (simp add: stuck_def)
      with eq have "f E cap ans (whileBody E cap ans s) = Some y" by simp
      then have "\<not> stuck E cap ans (whileBody E cap ans s)" by (rule ih)
      with whileBody_stuck[OF st] show False by simp
    qed
  qed
  with assms show False by simp
qed

text \<open>
  The \<^verbatim>\<open>while\<close> loop ends if and only if its first \<^verbatim>\<open>for\<close> loop takes every record.
\<close>

lemma whileLoop_char:
  assumes "wellFormed E s" "idx s \<le> length ans"
  shows "whileLoop E cap ans s =
     (if idx s < length ans
      then (if idx (forLoop E cap ans s) < length ans then None else Some (forLoop E cap ans s))
      else Some s)"
proof (cases "idx s < length ans")
  case False
  then show ?thesis by (subst whileLoop.simps) simp
next
  case True
  let ?s = "forLoop E cap ans s"
  note post = forLoop_post[OF assms, of cap]
  show ?thesis
  proof (cases "idx ?s < length ans")
    case False
    then have wb: "whileBody E cap ans s = ?s" by (simp add: whileBody_def Let_def)
    have "whileLoop E cap ans ?s = Some ?s" using False by (subst whileLoop.simps) simp
    then show ?thesis using True False wb by (subst whileLoop.simps) simp
  next
    case lt: True
    have w: "wellFormed E ?s" using post by blast
    have len0: "0 < length (packets ?s)" using w by (simp add: wellFormed_def)
    have m: "mainOK E (packets ?s ! 0)" and r: "rejects E cap (recordLengthNC E (ans ! idx ?s)) (packets ?s ! 0)"
      and cur: "currentPacket ?s < length (packets ?s)"
      using post lt w by (simp_all add: wellFormed_def)
    have "stuck E cap ans (whileBody E cap ans s)"
      using lt len0 cur m r mainOK_setTruncation[OF m] rejects_setTruncation[OF r]
      by (auto simp: whileBody_def Let_def stuck_def wellFormed_def atPacket_def nth_append nth_list_update)
    then have "whileLoop E cap ans (whileBody E cap ans s) = None" by (rule stuck_diverges)
    then show ?thesis using True lt by (subst whileLoop.simps) simp
  qed
qed

lemma mainOK_new: "mainOK E (newDNSPacket (queryDefinition qs))"
  by (simp add: mainOK_def cacheCoherent_def newDNSPacket_def queryDefinition_def orElse_def)

lemma wellFormed_initialLoop: "mainOK E p \<Longrightarrow> wellFormed E (initialLoop p)"
  by (simp add: wellFormed_def initialLoop_def)

lemma whileLoop_initial_length:
  assumes "mainOK E p" "whileLoop E cap ans (initialLoop p) = Some s"
  shows "length (packets s) = 1"
proof -
  have w: "wellFormed E (initialLoop p)" using assms(1) by (rule wellFormed_initialLoop)
  have i: "idx (initialLoop p) \<le> length ans" by (simp add: initialLoop_def)
  note post = forLoop_post[OF w i, of cap]
  have "s = forLoop E cap ans (initialLoop p) \<or> s = initialLoop p"
    using assms(2) unfolding whileLoop_char[OF w i] by (auto split: if_splits)
  then show ?thesis using post by (auto simp: initialLoop_def)
qed

subsection \<open>Claims on \<^verbatim>\<open>createDNSQueryPackets\<close>\<close>

text \<open>
  Whenever the call returns an array, the array holds exactly one packet.
\<close>

lemma createDNSQueryPackets_returns_one:
  assumes "createDNSQueryPackets E d udpPayloadSize = Some (Inr ps)"
  shows "length ps = 1"
proof -
  define cap where "cap = orElse udpPayloadSize (UDP_PAYLOAD_SIZE_IPV4 E)"
  define p1 where "p1 = snd (getEstimatedEncodingLength E (newDNSPacket (queryDefinition (Some (qd_questions d)))))"
  define p2 where "p2 = (if fst (getEstimatedEncodingLength E (newDNSPacket (queryDefinition (Some (qd_questions d))))) > cap
     then snd (getEncodingLength E p1) else p1)"
  have m1: "mainOK E p1" unfolding p1_def by (intro mainOK_est mainOK_new)
  have m2: "mainOK E p2" unfolding p2_def using m1 by (simp add: mainOK_enc)
  show ?thesis
  proof (cases "qd_answers d")
    case (Some known)
    from assms obtain s where "whileLoop E cap (sort_key (recordLengthNC E) known) (initialLoop p2) = Some s"
      and "ps = packets s"
      by (auto simp: createDNSQueryPackets_def Let_def Some cap_def p1_def p2_def split: if_splits)
    then show ?thesis using whileLoop_initial_length[OF m2] by simp
  next
    case None
    with assms show ?thesis
      by (auto simp: createDNSQueryPackets_def Let_def split: if_splits option.splits)
  qed
qed

text \<open>
  When the questions fit and the first \<^verbatim>\<open>for\<close> loop stops before the end of the sorted
  known-answers, the call never returns.
\<close>

lemma createDNSQueryPackets_diverges:
  assumes "qd_answers d = Some known"
    and "cap = orElse udpPayloadSize (UDP_PAYLOAD_SIZE_IPV4 E)"
    and "p0 = newDNSPacket (queryDefinition (Some (qd_questions d)))"
    and "fst (getEstimatedEncodingLength E p0) \<le> cap"
    and "idx (forLoop E cap (sort_key (recordLengthNC E) known)
               (initialLoop (snd (getEstimatedEncodingLength E p0))))
           < length (sort_key (recordLengthNC E) known)"
  shows "createDNSQueryPackets E d udpPayloadSize = None"
proof -
  let ?p1 = "snd (getEstimatedEncodingLength E p0)"
  have m1: "mainOK E ?p1" unfolding assms(3) by (intro mainOK_est mainOK_new)
  have w: "wellFormed E (initialLoop ?p1)" using m1 by (rule wellFormed_initialLoop)
  have i: "idx (initialLoop ?p1) \<le> length (sort_key (recordLengthNC E) known)" by (simp add: initialLoop_def)
  have "0 < length (sort_key (recordLengthNC E) known)"
    using assms(5) by (rule le_less_trans[OF le0])
  then have lt: "idx (initialLoop ?p1) < length (sort_key (recordLengthNC E) known)"
    by (simp add: initialLoop_def)
  have "whileLoop E cap (sort_key (recordLengthNC E) known) (initialLoop ?p1) = None"
    unfolding whileLoop_char[OF w i] using assms(5) lt by simp
  then show ?thesis
    using assms(1,4) unfolding assms(2,3) by (simp add: createDNSQueryPackets_def Let_def)
qed

text \<open>
  C1. The claim is that a query with one question and known-answers beyond the payload
  size comes back as more than one packet, truncation flags set on all but the last, the
  answers of the packets being the sorted known-answers. The function as written cannot
  do that: whenever it returns an array, the array holds exactly one packet. On the
  scenario of the specification, one question (here of size 30) and 300 known-answers of
  size 50 at a payload size of 1440, the call never returns.
\<close>

theorem createDNSQueryPackets_never_splits:
  "(createDNSQueryPackets E d udpPayloadSize = Some (Inr ps) \<longrightarrow> length ps = 1)
   \<and> createDNSQueryPackets plainCoders (knownAnswerQuery [30] (replicate 300 50)) (Some 1440)
       = None"
proof -
  have "createDNSQueryPackets plainCoders (knownAnswerQuery [30] (replicate 300 50)) (Some 1440)
       = None"
    by (rule createDNSQueryPackets_diverges[where known = "replicate 300 50", OF _ refl refl];
        code_simp)
  then show ?thesis by (simp add: createDNSQueryPackets_returns_one)
qed

theorem createDNSQueryPackets_never_splits_witness:
  "createDNSQueryPackets plainCoders (knownAnswerQuery [10] [30, 20]) (Some 100)
     = Some (Inr [examplePacket [10] [20, 30] 72 0 True])
   \<and> length [examplePacket [10] [20, 30] 72 0 True] = 1"
proof -
  have e: "createDNSQueryPackets plainCoders (knownAnswerQuery [10] [30, 20]) (Some 100)
     = Some (Inr [examplePacket [10] [20, 30] 72 0 True])"
    by code_simp
  from e createDNSQueryPackets_never_splits[of plainCoders "knownAnswerQuery [10] [30, 20]"
      "Some 100" "[examplePacket [10] [20, 30] 72 0 True]"]
  show ?thesis by simp
qed

text \<open>
  C2. The claim is that the function terminates whenever the questions alone fit. One
  question of size 10 and two known-answers of size 50 at a payload size of 100: the
  questions fit (22 bytes), the first answer is taken (72 bytes), the second is not, and
  the call never returns.
\<close>

theorem createDNSQueryPackets_overflow_never_returns:
  "fst (getEncodingLength plainCoders (newDNSPacket (queryDefinition (Some [10])))) \<le> 100
   \<and> createDNSQueryPackets plainCoders (knownAnswerQuery [10] [50, 50]) (Some 100) = None"
proof -
  have 1: "fst (getEncodingLength plainCoders (newDNSPacket (queryDefinition (Some [10])) :: (nat, nat) DNSPacket)) \<le> 100"
    by code_simp
  have 2: "createDNSQueryPackets plainCoders (knownAnswerQuery [10] [50, 50]) (Some 100) = None"
    by (rule createDNSQueryPackets_diverges[where known = "[50, 50]", OF _ refl refl]; code_simp)
  from 1 2 show ?thesis by simp
qed

text \<open>
  C3. The claim is that a record larger than the payload size, met when the current
  packet has neither questions nor answers, is added to that current packet and sent
  alone. With one question of size 10 and the single known-answer of size 200 at a
  payload size of 100, the second round starts with the empty packet at index 1 as
  current packet; the loop body breaks, the record is in the packet at index 0 and not in
  the current one, the counter stays at 0, and the call never returns. Without any
  question the record is added to the first packet, which is the current one, and the
  call never returns either.
\<close>

theorem oversize_record_not_in_current_packet:
  "currentPacket secondRound = 1
   \<and> questions (packets secondRound ! currentPacket secondRound) = []
   \<and> answers (packets secondRound ! currentPacket secondRound) = []
   \<and> fst (forBody plainCoders 100 200 secondRound) = Break
   \<and> answers (packets (snd (forBody plainCoders 100 200 secondRound)) ! 1) = []
   \<and> answers (packets (snd (forBody plainCoders 100 200 secondRound)) ! 0) = [200]
   \<and> idx (snd (forBody plainCoders 100 200 secondRound)) = 0
   \<and> createDNSQueryPackets plainCoders (knownAnswerQuery [10] [200]) (Some 100) = None
   \<and> createDNSQueryPackets plainCoders (knownAnswerQuery [] [200]) (Some 100) = None"
proof -
  have 1: "currentPacket secondRound = 1" by code_simp
  have 2: "questions (packets secondRound ! currentPacket secondRound) = []" by code_simp
  have 3: "answers (packets secondRound ! currentPacket secondRound) = []" by code_simp
  have 4: "fst (forBody plainCoders 100 200 secondRound) = Break" by code_simp
  have 5: "answers (packets (snd (forBody plainCoders 100 200 secondRound)) ! 1) = []" by code_simp
  have 6: "answers (packets (snd (forBody plainCoders 100 200 secondRound)) ! 0) = [200]" by code_simp
  have 7: "idx (snd (forBody plainCoders 100 200 secondRound)) = 0" by code_simp
  have 8: "createDNSQueryPackets plainCoders (knownAnswerQuery [10] [200]) (Some 100) = None"
    by (rule createDNSQueryPackets_diverges[where known = "[200]", OF _ refl refl]; code_simp)
  have 9: "createDNSQueryPackets plainCoders (knownAnswerQuery [] [200]) (Some 100) = None"
    by (rule createDNSQueryPackets_diverges[where known = "[200]", OF _ refl refl]; code_simp)
  from 1 2 3 4 5 6 7 8 9 show ?thesis by blast
qed

subsection \<open>Claims on combining two packets\<close>

lemma addRecords_result:
  "addRecords f added (est, dirty, l) =
     ((if est \<noteq> 0 then sumLengthsNC f added est else est), (dirty \<or> added \<noteq> []), l @ added)"
  by (induction added arbitrary: est dirty l) auto

lemma cacheCoherent_new: "cacheCoherent E (newDNSPacket d)"
  by (simp add: cacheCoherent_def newDNSPacket_def)

lemma cacheCoherent_getEncodingLength:
  "cacheCoherent E p \<Longrightarrow> cacheCoherent E (snd (getEncodingLength E p))"
  by (auto simp: cacheCoherent_def getEncodingLength_def)

lemma cacheCoherent_getEstimatedEncodingLength:
  "cacheCoherent E p \<Longrightarrow> cacheCoherent E (snd (getEstimatedEncodingLength E p))"
  by (auto simp: cacheCoherent_def getEstimatedEncodingLength_def)

lemma cacheCoherent_add:
  "cacheCoherent E p \<Longrightarrow> cacheCoherent E (addQuestions E qs p)"
  "cacheCoherent E p \<Longrightarrow> cacheCoherent E (addAnswers E rs p)"
  "cacheCoherent E p \<Longrightarrow> cacheCoherent E (addAuthorities E rs p)"
  "cacheCoherent E p \<Longrightarrow> cacheCoherent E (addAdditionals E rs p)"
  by (auto simp: cacheCoherent_def addQuestions_def addAnswers_def addAuthorities_def
      addAdditionals_def addRecords_result compressedLength_def)

lemma cacheCoherent_setLegacyUnicastEncoding:
  "cacheCoherent E p \<Longrightarrow> cacheCoherent E (setLegacyUnicastEncoding b p)"
  by (auto simp: cacheCoherent_def setLegacyUnicastEncoding_def compressedLength_def)

lemma cacheCoherent_combineWith:
  "cacheCoherent E a \<Longrightarrow> cacheCoherent E (combineWith E a b)"
  by (simp add: combineWith_def cacheCoherent_add cacheCoherent_setLegacyUnicastEncoding)

lemma getEncodingLength_coherent:
  "cacheCoherent E p \<Longrightarrow> fst (getEncodingLength E p) = compressedLength E p"
  by (auto simp: cacheCoherent_def getEncodingLength_def)

lemma combineWith_sections:
  "questions (combineWith E a b) = questions a @ questions b"
  "answers (combineWith E a b) = answers a @ answers b"
  "authorities (combineWith E a b) = authorities a @ authorities b"
  "additionals (combineWith E a b) = additionals a @ additionals b"
  "legacyUnicastEncoding (combineWith E a b) = (legacyUnicastEncoding a \<or> legacyUnicastEncoding b)"
  by (auto simp: combineWith_def addQuestions_def addAnswers_def addAuthorities_def
      addAdditionals_def addRecords_result setLegacyUnicastEncoding_def)

text \<open>
  C5. Two packets with coherent length caches can be combined if and only if id, type,
  opcode, rcode and flags agree and the sum of their two compressed lengths is at most
  the payload size. Combining appends the four sections of the second packet to those of
  the first and takes the disjunction of the legacy-unicast flags.
\<close>

theorem canBeCombinedWith_iff:
  assumes "cacheCoherent E a" and "cacheCoherent E b"
  shows "fst (canBeCombinedWith E a b udpPayloadSize) =
           (packet_id a = packet_id b \<and> packet_type a = packet_type b \<and> opcode a = opcode b
            \<and> rcode a = rcode b \<and> flags a = flags b
            \<and> compressedLength E a + compressedLength E b
                 \<le> orElse udpPayloadSize (UDP_PAYLOAD_SIZE_IPV4 E))
         \<and> questions (combineWith E a b) = questions a @ questions b
         \<and> answers (combineWith E a b) = answers a @ answers b
         \<and> authorities (combineWith E a b) = authorities a @ authorities b
         \<and> additionals (combineWith E a b) = additionals a @ additionals b
         \<and> legacyUnicastEncoding (combineWith E a b)
             = (legacyUnicastEncoding a \<or> legacyUnicastEncoding b)"
proof -
  have "fst (canBeCombinedWith E a b udpPayloadSize) =
           (packet_id a = packet_id b \<and> packet_type a = packet_type b \<and> opcode a = opcode b
            \<and> rcode a = rcode b \<and> flags a = flags b
            \<and> compressedLength E a + compressedLength E b
                 \<le> orElse udpPayloadSize (UDP_PAYLOAD_SIZE_IPV4 E))"
    using getEncodingLength_coherent[OF assms(1)] getEncodingLength_coherent[OF assms(2)]
    by (auto simp: canBeCombinedWith_def)
  then show ?thesis by (simp add: combineWith_sections)
qed

theorem canBeCombinedWith_iff_witness:
  "cacheCoherent plainCoders (examplePacket [10] [20] 0 0 True)
   \<and> cacheCoherent plainCoders (examplePacket [] [30] 0 0 True)
   \<and> fst (canBeCombinedWith plainCoders (examplePacket [10] [20] 0 0 True)
            (examplePacket [] [30] 0 0 True) None)
   \<and> compressedLength plainCoders (examplePacket [10] [20] 0 0 True) = 42
   \<and> compressedLength plainCoders (examplePacket [] [30] 0 0 True) = 42
   \<and> answers (combineWith plainCoders (examplePacket [10] [20] 0 0 True)
                (examplePacket [] [30] 0 0 True)) = [20, 30]"
proof -
  have a: "cacheCoherent plainCoders (examplePacket [10] [20] 0 0 True)" by code_simp
  have b: "cacheCoherent plainCoders (examplePacket [] [30] 0 0 True)" by code_simp
  have c: "compressedLength plainCoders (examplePacket [10] [20] 0 0 True) = 42" by code_simp
  have d: "compressedLength plainCoders (examplePacket [] [30] 0 0 True) = 42" by code_simp
  have e: "answers (examplePacket [10] [20] 0 0 True) @ answers (examplePacket [] [30] 0 0 True)
             = [20, 30]" by code_simp
  have f: "packet_id (examplePacket [10] [20] 0 0 True) = packet_id (examplePacket [] [30] 0 0 True)
     \<and> packet_type (examplePacket [10] [20] 0 0 True) = packet_type (examplePacket [] [30] 0 0 True)
     \<and> opcode (examplePacket [10] [20] 0 0 True) = opcode (examplePacket [] [30] 0 0 True)
     \<and> rcode (examplePacket [10] [20] 0 0 True) = rcode (examplePacket [] [30] 0 0 True)
     \<and> flags (examplePacket [10] [20] 0 0 True) = flags (examplePacket [] [30] 0 0 True)"
    by (simp add: examplePacket_def)
  have g: "orElse None (UDP_PAYLOAD_SIZE_IPV4 plainCoders) = 1440" by code_simp
  from canBeCombinedWith_iff[OF a b, of None] a b c d e f g show ?thesis by simp
qed

section \<open>Properties of the response queue\<close>

lemma getEncodingLength_sections:
  "questions (snd (getEncodingLength E p)) = questions p"
  "answers (snd (getEncodingLength E p)) = answers p"
  "authorities (snd (getEncodingLength E p)) = authorities p"
  "additionals (snd (getEncodingLength E p)) = additionals p"
  "legacyUnicastEncoding (snd (getEncodingLength E p)) = legacyUnicastEncoding p"
  by (simp_all add: getEncodingLength_def)

lemma canBeCombinedWith_sections:
  "questions (fst (snd (canBeCombinedWith E a b u))) = questions a"
  "answers (fst (snd (canBeCombinedWith E a b u))) = answers a"
  "authorities (fst (snd (canBeCombinedWith E a b u))) = authorities a"
  "additionals (fst (snd (canBeCombinedWith E a b u))) = additionals a"
  "legacyUnicastEncoding (fst (snd (canBeCombinedWith E a b u))) = legacyUnicastEncoding a"
  "questions (snd (snd (canBeCombinedWith E a b u))) = questions b"
  "answers (snd (snd (canBeCombinedWith E a b u))) = answers b"
  "authorities (snd (snd (canBeCombinedWith E a b u))) = authorities b"
  "additionals (snd (snd (canBeCombinedWith E a b u))) = additionals b"
  "legacyUnicastEncoding (snd (snd (canBeCombinedWith E a b u))) = legacyUnicastEncoding b"
  by (simp_all add: canBeCombinedWith_def getEncodingLength_sections)

lemma combine_cases:
  "combineWithNextPacketIfPossible E this next u =
     (if interfaceName this = interfaceName next \<and> fst (canBeCombinedWith E (packet next) (packet this) u)
      then (True,
            this\<lparr>packet := snd (snd (canBeCombinedWith E (packet next) (packet this) u)),
                 response_timer := None, delayed := Some True\<rparr>,
            next\<lparr>packet := combineWith E (fst (snd (canBeCombinedWith E (packet next) (packet this) u)))
                               (snd (snd (canBeCombinedWith E (packet next) (packet this) u))),
                 timeOfCreation := min (timeOfCreation this) (timeOfCreation next)\<rparr>,
            (case response_timer this of Some h \<Rightarrow> [ClearTimeout h] | None \<Rightarrow> []))
      else (False,
            (if interfaceName this = interfaceName next
             then this\<lparr>packet := snd (snd (canBeCombinedWith E (packet next) (packet this) u))\<rparr> else this),
            (if interfaceName this = interfaceName next
             then next\<lparr>packet := fst (snd (canBeCombinedWith E (packet next) (packet this) u))\<rparr> else next),
            []))"
  by (cases "canBeCombinedWith E (packet next) (packet this) u")
     (auto simp: combineWithNextPacketIfPossible_def split: bool.splits)

text \<open>
  C4, as the claim states it: a merge succeeds only when it does not push the earliest
  entry past 500 ms. It fails on the code. An entry created at time 0 (it already holds
  earlier merged responses and is due at 480) and a next entry created at 470 and due at
  580, on the same interface, with packets that can be combined: the merge succeeds, and
  the records of the first entry would leave 580 ms after their creation.
\<close>

theorem merge_without_delay_check_counterexample:
  "mergeResult plainCoders (exampleResponse 0 480 1 [20]) (exampleResponse 470 580 2 [30]) None
   \<and> interfaceName (exampleResponse 0 480 1 [20]) = interfaceName (exampleResponse 470 580 2 [30])
   \<and> estimatedTimeToBeSent (exampleResponse 470 580 2 [30])
         - timeOfCreation (exampleResponse 0 480 1 [20]) = 580
   \<and> \<not> delayWouldBeInTimelyManner (exampleResponse 0 480 1 [20]) (exampleResponse 470 580 2 [30])"
proof -
  have 1: "mergeResult plainCoders (exampleResponse 0 480 1 [20]) (exampleResponse 470 580 2 [30]) None"
    by code_simp
  have 2: "interfaceName (exampleResponse 0 480 1 [20]) = interfaceName (exampleResponse 470 580 2 [30])"
    by (simp add: exampleResponse_def newQueuedResponse_def)
  have 3: "estimatedTimeToBeSent (exampleResponse 470 580 2 [30])
         - timeOfCreation (exampleResponse 0 480 1 [20]) = 580"
    by (simp add: exampleResponse_def newQueuedResponse_def)
  have 4: "\<not> delayWouldBeInTimelyManner (exampleResponse 0 480 1 [20]) (exampleResponse 470 580 2 [30])"
    by (simp add: delayWouldBeInTimelyManner_def MAX_DELAY_def exampleResponse_def newQueuedResponse_def)
  from 1 2 3 4 show ?thesis by blast
qed

text \<open>
  C4, amended. \<^verbatim>\<open>combineWithNextPacketIfPossible\<close> does not look at the delay: it
  succeeds exactly when the interfaces are the same and the packets can be combined. The
  bound of 500 ms is the separate test \<^verbatim>\<open>delayWouldBeInTimelyManner\<close>, left to the caller
  (the check inside the method is commented out, with the remark that the caller makes
  it). After a merge that followed a successful test, the merged entry is due at most
  500 ms after the time of creation of the earlier entry, and, when the later entry was
  due within 500 ms of its own creation, at most 500 ms after the time of creation the
  merged entry now carries.
\<close>

theorem merge_after_timely_check:
  "mergeResult E this next udpPayloadSize
     = (interfaceName this = interfaceName next
        \<and> fst (canBeCombinedWith E (packet next) (packet this) udpPayloadSize))
   \<and> (delayWouldBeInTimelyManner this next \<and> mergeResult E this next udpPayloadSize \<longrightarrow>
        estimatedTimeToBeSent (mergedNext E this next udpPayloadSize) - timeOfCreation this
          \<le> MAX_DELAY
        \<and> (estimatedTimeToBeSent next - timeOfCreation next \<le> MAX_DELAY \<longrightarrow>
             estimatedTimeToBeSent (mergedNext E this next udpPayloadSize)
               - timeOfCreation (mergedNext E this next udpPayloadSize) \<le> MAX_DELAY))"
  unfolding mergeResult_def mergedNext_def combine_cases
  by (auto simp: delayWouldBeInTimelyManner_def min_def)

theorem merge_after_timely_check_witness:
  "delayWouldBeInTimelyManner (exampleResponse 0 100 1 [20]) (exampleResponse 30 140 2 [30])
   \<and> mergeResult plainCoders (exampleResponse 0 100 1 [20]) (exampleResponse 30 140 2 [30]) None
   \<and> estimatedTimeToBeSent (exampleResponse 30 140 2 [30])
        - timeOfCreation (exampleResponse 30 140 2 [30]) \<le> MAX_DELAY
   \<and> estimatedTimeToBeSent
        (mergedNext plainCoders (exampleResponse 0 100 1 [20]) (exampleResponse 30 140 2 [30]) None)
      - timeOfCreation
          (mergedNext plainCoders (exampleResponse 0 100 1 [20]) (exampleResponse 30 140 2 [30]) None)
      \<le> MAX_DELAY"
proof -
  have 1: "delayWouldBeInTimelyManner (exampleResponse 0 100 1 [20]) (exampleResponse 30 140 2 [30])"
    by (simp add: delayWouldBeInTimelyManner_def MAX_DELAY_def exampleResponse_def newQueuedResponse_def)
  have 2: "mergeResult plainCoders (exampleResponse 0 100 1 [20]) (exampleResponse 30 140 2 [30]) None"
    by code_simp
  have 3: "estimatedTimeToBeSent (exampleResponse 30 140 2 [30])
        - timeOfCreation (exampleResponse 30 140 2 [30]) \<le> MAX_DELAY"
    by (simp add: MAX_DELAY_def exampleResponse_def newQueuedResponse_def)
  from merge_after_timely_check[of plainCoders "exampleResponse 0 100 1 [20]"
      "exampleResponse 30 140 2 [30]" None] 1 2 3
  show ?thesis by blast
qed

text \<open>
  C6. After a successful merge the packet of the later entry holds its own sections
  followed by those of the earlier entry, its time of creation is the minimum of the two,
  its due time and timer are as before; the earlier entry has no timer and is marked
  \<^verbatim>\<open>delayed\<close>, and \<^verbatim>\<open>clearTimeout\<close> was called on the timer it had, so that its callback is
  no longer pending in the event loop, whatever was pending before.
\<close>

theorem successful_merge:
  assumes "combineWithNextPacketIfPossible E this next udpPayloadSize = (True, this', next', fx)"
  shows "questions (packet next') = questions (packet next) @ questions (packet this)
       \<and> answers (packet next') = answers (packet next) @ answers (packet this)
       \<and> authorities (packet next') = authorities (packet next) @ authorities (packet this)
       \<and> additionals (packet next') = additionals (packet next) @ additionals (packet this)
       \<and> legacyUnicastEncoding (packet next')
           = (legacyUnicastEncoding (packet next) \<or> legacyUnicastEncoding (packet this))
       \<and> timeOfCreation next' = min (timeOfCreation this) (timeOfCreation next)
       \<and> estimatedTimeToBeSent next' = estimatedTimeToBeSent next
       \<and> response_timer next' = response_timer next
       \<and> response_timer this' = None
       \<and> delayed this' = Some True
       \<and> fx = (case response_timer this of Some h \<Rightarrow> [ClearTimeout h] | None \<Rightarrow> [])
       \<and> (case response_timer this of Some h \<Rightarrow> TimerFired h \<notin> set (schedule fx pending) | None \<Rightarrow> True)"
  using assms unfolding combine_cases
  by (auto simp: canBeCombinedWith_sections combineWith_sections split: if_splits option.splits)

theorem successful_merge_witness:
  "combineWithNextPacketIfPossible plainCoders
      (exampleResponse 0 100 1 [20]) (exampleResponse 30 140 2 [30]) None
     = (True,
        (exampleResponse 0 100 1 [20])
          \<lparr>packet := snd (getEncodingLength plainCoders (packet (exampleResponse 0 100 1 [20]))),
            response_timer := None, delayed := Some True\<rparr>,
        (exampleResponse 30 140 2 [30])
          \<lparr>packet := combineWith plainCoders
                        (snd (getEncodingLength plainCoders (packet (exampleResponse 30 140 2 [30]))))
                        (snd (getEncodingLength plainCoders (packet (exampleResponse 0 100 1 [20])))),
            timeOfCreation := 0\<rparr>,
        [ClearTimeout 1 :: nat effect])
   \<and> answers (packet ((exampleResponse 30 140 2 [30])
          \<lparr>packet := combineWith plainCoders
                        (snd (getEncodingLength plainCoders (packet (exampleResponse 30 140 2 [30]))))
                        (snd (getEncodingLength plainCoders (packet (exampleResponse 0 100 1 [20])))),
            timeOfCreation := 0\<rparr>)) = [30, 20]
   \<and> TimerFired 1 \<notin> set (schedule [ClearTimeout 1 :: nat effect] [TimerFired 1, TimerFired 2])"
proof -
  have e: "combineWithNextPacketIfPossible plainCoders
      (exampleResponse 0 100 1 [20]) (exampleResponse 30 140 2 [30]) None
     = (True,
        (exampleResponse 0 100 1 [20])
          \<lparr>packet := snd (getEncodingLength plainCoders (packet (exampleResponse 0 100 1 [20]))),
            response_timer := None, delayed := Some True\<rparr>,
        (exampleResponse 30 140 2 [30])
          \<lparr>packet := combineWith plainCoders
                        (snd (getEncodingLength plainCoders (packet (exampleResponse 30 140 2 [30]))))
                        (snd (getEncodingLength plainCoders (packet (exampleResponse 0 100 1 [20])))),
            timeOfCreation := 0\<rparr>,
        [ClearTimeout 1 :: nat effect])"
    by code_simp
  have r: "response_timer (exampleResponse 0 100 1 [20]) = Some 1"
    and a: "answers (packet (exampleResponse 30 140 2 [30])) @ answers (packet (exampleResponse 0 100 1 [20])) = [30, 20]"
    by (simp_all add: exampleResponse_def newQueuedResponse_def responsePacket_def newDNSPacket_def orElse_def)
  from successful_merge[OF e, of "[TimerFired 1, TimerFired 2]"] e r a show ?thesis by simp
qed

section \<open>Properties of the prober\<close>

text \<open>
  C7, as the claim states it: a query for our name that carries authority records is
  always put to the tiebreak. It fails on the code. After the first probe of \<open>lamp\<close> a
  query arrives whose question is the name of \<open>lamp\<close> and whose one authority record
  has another name and data that beats the records of \<open>lamp\<close>: the tiebreak would be
  lost, yet the query is ignored, the prober and its timer stay as they are.
\<close>

theorem foreign_authorities_counterexample:
  "sentFirstProbeQuery afterFirstProbe
   \<and> needsTiebreaking exampleEnv (service afterFirstProbe) foreignQuery
   \<and> d_authorities foreignQuery \<noteq> []
   \<and> runTiebreaking exampleEnv (records afterFirstProbe)
         (sortRecords exampleEnv (d_authorities foreignQuery)) = OPPONENT
   \<and> handleQuery exampleEnv 5 foreignQuery afterFirstProbe = (afterFirstProbe, [])"
proof -
  have 1: "sentFirstProbeQuery afterFirstProbe" by code_simp
  have 2: "needsTiebreaking exampleEnv (service afterFirstProbe) foreignQuery" by code_simp
  have 3: "d_authorities foreignQuery \<noteq> []" by (simp add: foreignQuery_def)
  have 4: "runTiebreaking exampleEnv (records afterFirstProbe)
         (sortRecords exampleEnv (d_authorities foreignQuery)) = OPPONENT" by code_simp
  have 5: "handleQuery exampleEnv 5 foreignQuery afterFirstProbe = (afterFirstProbe, [])" by code_simp
  from 1 2 3 4 5 show ?thesis by blast
qed

text \<open>
  C7, amended. For a query received after the first probe was sent with a question for
  the name of the service or its host name: the tiebreak is run when the query has no
  authority record or when one of its authority records has the name of the service or
  its host name, and the query is ignored otherwise. When the tiebreak is run, the
  records of the prober are compared with the sorted authorities; when the opponent wins,
  the prober clears its timer, resets \<^verbatim>\<open>sentFirstProbeQuery\<close> and \<^verbatim>\<open>sentQueries\<close> and
  sets a timer of 1000 ms for \<^verbatim>\<open>sendProbeRequest\<close>; in every other case nothing changes.
  The service, and so its name, is never changed.
\<close>

theorem handleQuery_tiebreaking:
  assumes "sentFirstProbeQuery s"
    and "needsTiebreaking P (service s) pkt"
  shows "handleQuery P h pkt s =
     (if conflict P (service s) pkt
      then (if runTiebreaking P (records s) (sortRecords P (d_authorities pkt)) = OPPONENT
            then (s\<lparr>timer := Some h, sentFirstProbeQuery := False, sentQueries := 0\<rparr>,
                  (case timer s of Some k \<Rightarrow> [ClearTimeout k] | None \<Rightarrow> [])
                  @ [SetTimeout h 1000])
            else (s, []))
      else (s, []))
     \<and> service (fst (handleQuery P h pkt s)) = service s"
  using assms
  by (cases "runTiebreaking P (records s) (sortRecords P (d_authorities pkt))")
     (auto simp: handleQuery_def doTiebreaking_def endProbing_def Let_def)

theorem handleQuery_tiebreaking_witness:
  "sentFirstProbeQuery afterFirstProbe
   \<and> needsTiebreaking exampleEnv (service afterFirstProbe)
         (foreignQuery\<lparr>d_authorities := [(''Lamp._hap._tcp.local'', 40)]\<rparr>)
   \<and> handleQuery exampleEnv 5 (foreignQuery\<lparr>d_authorities := [(''Lamp._hap._tcp.local'', 40)]\<rparr>)
         afterFirstProbe
       = (afterFirstProbe\<lparr>timer := Some 5, sentFirstProbeQuery := False, sentQueries := 0\<rparr>,
          [ClearTimeout 1, SetTimeout 5 1000])"
proof -
  have 1: "sentFirstProbeQuery afterFirstProbe" by code_simp
  have 2: "needsTiebreaking exampleEnv (service afterFirstProbe)
         (foreignQuery\<lparr>d_authorities := [(''Lamp._hap._tcp.local'', 40)]\<rparr>)"
    by code_simp
  have 3: "conflict exampleEnv (service afterFirstProbe)
             (foreignQuery\<lparr>d_authorities := [(''Lamp._hap._tcp.local'', 40)]\<rparr>)" by code_simp
  have 5: "runTiebreaking exampleEnv (records afterFirstProbe)
             (sortRecords exampleEnv
                (d_authorities (foreignQuery\<lparr>d_authorities := [(''Lamp._hap._tcp.local'', 40)]\<rparr>)))
             = OPPONENT" by code_simp
  have 6: "timer afterFirstProbe = Some 1" by code_simp
  from handleQuery_tiebreaking[OF 1 2, of 5] 1 2 3 5 6 show ?thesis by simp
qed

text \<open>
  C8, as the claim states it: every response with a record of our name, received after
  the first probe, is followed at once by a new first probe. It fails on the code. The
  prober of \<open>lamp\<close> started at time 0 and has sent its first probe; a conflicting
  response arrives at 60001: the timer is cleared and the promise is rejected with
  \<^verbatim>\<open>timeout\<close>; no probe is sent.
\<close>

theorem late_conflict_counterexample:
  "sentFirstProbeQuery afterFirstProbe
   \<and> containsAnswer exampleEnv (service afterFirstProbe) conflictingResponse
   \<and> snd (handleResponse exampleEnv 60001 conflictingResponse afterFirstProbe)
       = [ClearTimeout 1, PromiseReject ''timeout'']"
proof -
  have 1: "sentFirstProbeQuery afterFirstProbe" by code_simp
  have 2: "containsAnswer exampleEnv (service afterFirstProbe) conflictingResponse" by code_simp
  have 3: "snd (handleResponse exampleEnv 60001 conflictingResponse afterFirstProbe)
       = [ClearTimeout 1, PromiseReject ''timeout'']" by code_simp
  from 1 2 3 show ?thesis by blast
qed

text \<open>
  C8, amended. A response received before the first probe was sent changes nothing. A
  response received after it whose answers or additionals hold a record with the name of
  the service or its host name makes the prober clear its timer, reset
  \<^verbatim>\<open>sentFirstProbeQuery\<close> and \<^verbatim>\<open>sentQueries\<close>, ask the service to increment its name and
  take the records of the renamed service; then, in the same call and without any timer,
  it sends a probe for the new names when at most 60000 ms have passed since \<^verbatim>\<open>probe()\<close>,
  and rejects the promise with \<^verbatim>\<open>timeout\<close>, sending nothing, when more have passed.
\<close>

theorem handleResponse_conflict:
  "(\<not> sentFirstProbeQuery s \<longrightarrow> handleResponse P now pkt s = (s, []))
   \<and> (sentFirstProbeQuery s
        \<and> containsAnswer P (service s) pkt
        \<and> promise s
        \<and> sortRecords P (serviceRecords P (incrementName P (service s))) \<noteq> []
      \<longrightarrow> handleResponse P now pkt s =
            (s\<lparr>timer := None, sentFirstProbeQuery := False, sentQueries := 0,
                service := incrementName P (service s),
                records := sortRecords P (serviceRecords P (incrementName P (service s)))\<rparr>,
             (case timer s of Some k \<Rightarrow> [ClearTimeout k] | None \<Rightarrow> [])
             @ (if probingTimedOut now (startTime s) then [PromiseReject ''timeout'']
                else [SendQuery (probeQuestions P (incrementName P (service s)))
                        (sortRecords P (serviceRecords P (incrementName P (service s))))])))"
  by (auto simp: handleResponse_def sendProbeRequest_def endProbing_def Let_def)

theorem handleResponse_conflict_witness:
  "\<not> sentFirstProbeQuery (newProber lamp :: (string \<times> string, string \<times> nat) Prober)
   \<and> handleResponse exampleEnv 600 conflictingResponse (newProber lamp) = (newProber lamp, [])
   \<and> sentFirstProbeQuery afterFirstProbe
   \<and> containsAnswer exampleEnv (service afterFirstProbe) conflictingResponse
   \<and> promise afterFirstProbe
   \<and> sortRecords exampleEnv
         (serviceRecords exampleEnv (incrementName exampleEnv (service afterFirstProbe))) \<noteq> []
   \<and> \<not> probingTimedOut 600 (startTime afterFirstProbe)
   \<and> snd (handleResponse exampleEnv 600 conflictingResponse afterFirstProbe)
       = [ClearTimeout 1,
          SendQuery (probeQuestions exampleEnv (''Lamp (2)'', ''lamp-2''))
            [(''lamp-2.local'', 1), (''Lamp (2)._hap._tcp.local'', 33)]]"
proof -
  have 0: "\<not> sentFirstProbeQuery (newProber lamp :: (string \<times> string, string \<times> nat) Prober)"
    by (simp add: newProber_def)
  have 1: "sentFirstProbeQuery afterFirstProbe" by code_simp
  have 2: "containsAnswer exampleEnv (service afterFirstProbe) conflictingResponse" by code_simp
  have 3: "promise afterFirstProbe" by code_simp
  have 4: "sortRecords exampleEnv (serviceRecords exampleEnv (incrementName exampleEnv (service afterFirstProbe)))
             = [(''lamp-2.local'', 1), (''Lamp (2)._hap._tcp.local'', 33)]" by code_simp
  have 5: "\<not> probingTimedOut 600 (startTime afterFirstProbe)" by code_simp
  have 6: "timer afterFirstProbe = Some 1" by code_simp
  have 7: "incrementName exampleEnv (service afterFirstProbe) = (''Lamp (2)'', ''lamp-2'')" by code_simp
  from handleResponse_conflict[of "newProber lamp" exampleEnv 600 conflictingResponse]
       handleResponse_conflict[of afterFirstProbe exampleEnv 600 conflictingResponse]
       0 1 2 3 4 5 6 7
  show ?thesis by simp
qed




text \<open>
  C10, as the claim states it: from any state but the final one, more than 60 s after the
  start the probing fails. It fails on the code. The prober of \<open>lamp\<close> started at
  time 0 and sent its third probe at 59900; success is not reported yet, the last timer is
  pending. It fires at 60150, more than 60 s after the start: \<^verbatim>\<open>sendProbeRequest\<close> tests
  the number of probes first, and resolves the promise.
\<close>

theorem success_after_a_minute_counterexample:
  "sentQueries afterThirdProbe = 3
   \<and> promise afterThirdProbe
   \<and> timer afterThirdProbe = Some 3
   \<and> startTime afterThirdProbe = Some 0
   \<and> probingTimedOut 60150 (startTime afterThirdProbe)
   \<and> snd (sendProbeRequest exampleEnv 60150 afterThirdProbe) = [ClearTimeout 3, PromiseResolve]"
proof -
  have 1: "sentQueries afterThirdProbe = 3" by code_simp
  have 2: "promise afterThirdProbe" by code_simp
  have 3: "timer afterThirdProbe = Some 3" by code_simp
  have 4: "startTime afterThirdProbe = Some 0" by code_simp
  have 5: "probingTimedOut 60150 (startTime afterThirdProbe)" by code_simp
  have 6: "snd (sendProbeRequest exampleEnv 60150 afterThirdProbe) = [ClearTimeout 3, PromiseResolve]"
    by code_simp
  from 1 2 3 4 5 6 show ?thesis by blast
qed

text \<open>
  C10, amended. When \<^verbatim>\<open>sendProbeRequest\<close> is called more than 60000 ms after \<^verbatim>\<open>probe()\<close>:
  with fewer than three probes sent it clears the timer, resets \<^verbatim>\<open>sentFirstProbeQuery\<close>
  and \<^verbatim>\<open>sentQueries\<close> and rejects the promise with \<^verbatim>\<open>timeout\<close>; it sends no query and sets
  no timer. With three probes sent it resolves the promise instead.
\<close>

theorem sendProbeRequest_timeout:
  assumes "startTime s = Some t0" and "now - t0 > 60000" and "promise s"
  shows "sendProbeRequest P now s =
     (if sentQueries s < 3
      then ((if sentQueries s = 0
             then s\<lparr>records := sortRecords P (serviceRecords P (service s))\<rparr> else s)
              \<lparr>timer := None, sentFirstProbeQuery := False, sentQueries := 0\<rparr>,
            (case timer s of Some k \<Rightarrow> [ClearTimeout k] | None \<Rightarrow> [])
            @ [PromiseReject ''timeout''])
      else (s\<lparr>timer := None, sentFirstProbeQuery := False, sentQueries := 0\<rparr>,
            (case timer s of Some k \<Rightarrow> [ClearTimeout k] | None \<Rightarrow> []) @ [PromiseResolve]))"
  using assms
  by (auto simp: sendProbeRequest_def endProbing_def probingTimedOut_def Let_def)

theorem sendProbeRequest_timeout_witness:
  "startTime afterFirstProbe = Some 0 \<and> (60251::int) - 0 > 60000 \<and> promise afterFirstProbe
   \<and> sentQueries afterFirstProbe = 1
   \<and> sendProbeRequest exampleEnv 60251 afterFirstProbe =
       (afterFirstProbe\<lparr>timer := None, sentFirstProbeQuery := False, sentQueries := 0\<rparr>,
        [ClearTimeout 1, PromiseReject ''timeout''])"
proof -
  have 1: "startTime afterFirstProbe = Some 0" by code_simp
  have 2: "(60251::int) - 0 > 60000" by simp
  have 3: "promise afterFirstProbe" by code_simp
  have 4: "sentQueries afterFirstProbe = 1" by code_simp
  have 5: "timer afterFirstProbe = Some 1" by code_simp
  from sendProbeRequest_timeout[OF 1 2 3, of exampleEnv] 1 2 3 4 5 show ?thesis by simp
qed

end
